theory Spec2Isabelle
  imports Complex_Main "HOL-Library.AList" "HOL-Library.Log_Nat"
begin

section \<open>Schema field extractor: data model\<close>

text \<open>
  The TypeScript module extracts the customizable fields of a pipeline's configuration
  schema. Its values are modelled as follows.
  \<^item> A value of type \<^verbatim>\<open>unknown\<close> (a default, a member of an enumeration) is a JSON value.
  \<^item> A \<^verbatim>\<open>number\<close> is an IEEE 754 double (section \<open>Numbers\<close>): a finite value, a
    negative zero, an infinity or NaN. A numeral of the source or of a JSON document
    denotes the double nearest to it.
  \<^item> An optional member (\<^verbatim>\<open>x?: T\<close>) is an \<open>option\<close>: \<open>None\<close> is \<^verbatim>\<open>undefined\<close>, whether the key
    is missing or holds \<^verbatim>\<open>undefined\<close>.
  \<^item> An object used as a dictionary and enumerated (\<^verbatim>\<open>Object.entries\<close>) is the list of its
    entries in enumeration order; one that is only read by key is a map. Keys are ordinary
    property names: the prototype chain of JavaScript objects (a key such as
    \<^verbatim>\<open>__proto__\<close>) is not part of the model.
  \<^item> The extractor is translated for inputs of its declared types first. The values
    outside those types that can reach it when the program runs, the order in which an
    object is enumerated, and the state that two invocations share have sections of their
    own.
\<close>

section \<open>Numbers\<close>

text \<open>
  A JavaScript number is a binary64 value. \<open>Finite q\<close> is the finite double whose exact
  value is the rational \<open>q\<close> (\<open>Finite 0\<close> is +0), \<open>NegZero\<close> is -0. Only the operations of
  the source are modelled: the subtraction and the comparison of \<^verbatim>\<open>deriveStep\<close>, and the
  reading of a numeral.
\<close>

datatype double = Finite rat | NegZero | PosInf | NegInf | NaN

text \<open>The exponent of a positive rational: the \<open>e\<close> with \<open>2 ^ e \<le> a < 2 ^ (e + 1)\<close>.\<close>

definition floor_log2 :: "rat \<Rightarrow> int" where
  "floor_log2 a = (if 1 \<le> a then bitlen \<lfloor>a\<rfloor> - 1 else - bitlen (\<lceil>1 / a\<rceil> - 1))"

text \<open>The nearest integer, the even one of two that are equally near.\<close>

definition round_half_even :: "rat \<Rightarrow> int" where
  "round_half_even x =
     (let f = \<lfloor>x\<rfloor>; d = x - of_int f
      in if d < 1 / 2 then f
         else if 1 / 2 < d then f + 1
         else if even f then f else f + 1)"

text \<open>
  Rounding of an exact value to binary64, to nearest with ties to even: 53 significant bits,
  the spacing of the subnormal numbers below \<open>2 ^ -1022\<close>, an infinity when the rounded
  magnitude reaches \<open>2 ^ 1024\<close>, a signed zero when it is zero.
\<close>

definition round_double :: "rat \<Rightarrow> double" where
  "round_double q =
     (if q = 0 then Finite 0
      else
        (let a = \<bar>q\<bar>;
             e = max (floor_log2 a) (- 1022);
             ulp = 2 powi (e - 52);
             r = of_int (round_half_even (a / ulp)) * ulp
         in if r = 0 then (if 0 < q then Finite 0 else NegZero)
            else if 1023 < floor_log2 r then (if 0 < q then PosInf else NegInf)
            else Finite (if 0 < q then r else - r)))"

text \<open>\<^verbatim>\<open>x - y\<close> on numbers.\<close>

fun double_sub :: "double \<Rightarrow> double \<Rightarrow> double" where
  "double_sub NaN y = NaN"
| "double_sub x NaN = NaN"
| "double_sub PosInf PosInf = NaN"
| "double_sub NegInf NegInf = NaN"
| "double_sub PosInf y = PosInf"
| "double_sub NegInf y = NegInf"
| "double_sub x PosInf = NegInf"
| "double_sub x NegInf = PosInf"
| "double_sub NegZero NegZero = Finite 0"
| "double_sub NegZero (Finite b) = (if b = 0 then NegZero else round_double (- b))"
| "double_sub (Finite a) NegZero = Finite a"
| "double_sub (Finite a) (Finite b) = round_double (a - b)"

text \<open>\<^verbatim>\<open>x < y\<close> on numbers: false when an operand is NaN, the two zeros equal.\<close>

fun double_less :: "double \<Rightarrow> double \<Rightarrow> bool" where
  "double_less NaN y = False"
| "double_less x NaN = False"
| "double_less PosInf y = False"
| "double_less x NegInf = False"
| "double_less NegInf y = True"
| "double_less x PosInf = True"
| "double_less NegZero NegZero = False"
| "double_less NegZero (Finite b) = (0 < b)"
| "double_less (Finite a) NegZero = (a < 0)"
| "double_less (Finite a) (Finite b) = (a < b)"

section \<open>Values and records\<close>

datatype json =
    JNull
  | JBool bool
  | JNum double
  | JStr string
  | JArr "json list"
  | JObj "(string \<times> json) list"

text \<open>
  Modelled from the spec: the interface \<^verbatim>\<open>PipelineSchemaProperty\<close> (imported from
  \<^verbatim>\<open>./api\<close>), a property record
  \<^verbatim>\<open>{type?, default?, description?, minimum?, maximum?, enum?, $ref?}\<close>. The members carry
  the prefix \<open>p\<close>; \<open>pref\<close> is \<^verbatim>\<open>$ref\<close>.
\<close>

record PipelineSchemaProperty =
  ptype :: "string option"
  pdefault :: "json option"
  pdescription :: "string option"
  pminimum :: "double option"
  pmaximum :: "double option"
  penum :: "json list option"
  pref :: "string option"

text \<open>A definition record, \<^verbatim>\<open>{ enum?: unknown[] }\<close> in the signature of
  \<^verbatim>\<open>extractFieldMetadata\<close>; \<open>denum\<close> is its \<^verbatim>\<open>enum\<close>.\<close>

record SchemaDefinition =
  denum :: "json list option"

text \<open>
  Modelled from the spec: the interface \<^verbatim>\<open>PipelineConfigSchema\<close> (imported from \<^verbatim>\<open>./api\<close>),
  a property map plus an optional definitions mapping. \<open>properties\<close> is the list
  \<^verbatim>\<open>Object.entries(configSchema.properties)\<close> when the member is there; \<open>defs\<close> is
  \<^verbatim>\<open>$defs\<close>.
\<close>

record PipelineConfigSchema =
  properties :: "(string \<times> PipelineSchemaProperty) list option"
  defs :: "(string \<rightharpoonup> SchemaDefinition) option"

text \<open>
  Modelled from the spec: the interface \<^verbatim>\<open>SchemaFieldMetadata\<close> (imported from \<^verbatim>\<open>../types\<close>),
  the field descriptor. \<open>ftype\<close> is \<^verbatim>\<open>type\<close>, a string at run time; \<open>fdefault\<close>,
  \<open>fdescription\<close>, \<open>fminimum\<close> and \<open>fmaximum\<close> are \<^verbatim>\<open>default\<close>, \<^verbatim>\<open>description\<close>,
  \<^verbatim>\<open>minimum\<close> and \<^verbatim>\<open>maximum\<close>.
\<close>

record SchemaFieldMetadata =
  name :: string
  ftype :: string
  fdefault :: "json option"
  fdescription :: "string option"
  fminimum :: "double option"
  fmaximum :: "double option"
  enumValues :: "json list option"
  step :: "double option"

section \<open>The extractor\<close>

text \<open>Hardcoded fields that have dedicated UI controls.\<close>

definition HARDCODED_FIELDS :: "string list" where
  "HARDCODED_FIELDS =
    [''height'', ''width'', ''seed'', ''denoising_steps'', ''vae_type'', ''noise_scale'',
     ''noise_controller'', ''manage_cache'', ''kv_cache_attention_bias'', ''quantization'',
     ''ref_images'', ''vace_context_scale'', ''input_size'', ''ctrl_input'', ''images'',
     ''base_seed'']"

text \<open>
  \<^verbatim>\<open>s.split(sep)\<close> for a separator of one character: the segments between the occurrences
  of the separator, at least one segment (\<^verbatim>\<open>"".split("/")\<close> is \<^verbatim>\<open>[""]\<close>).
\<close>

fun js_split :: "char \<Rightarrow> string \<Rightarrow> string list" where
  "js_split sep [] = [[]]"
| "js_split sep (c # cs) =
     (if c = sep then [] # js_split sep cs
      else (case js_split sep cs of
              [] \<Rightarrow> [[c]]
            | seg # segs \<Rightarrow> (c # seg) # segs))"

text \<open>\<^verbatim>\<open>xs.pop()\<close> as a value: the last element, \<^verbatim>\<open>undefined\<close> for an empty array.\<close>

definition pop :: "'a list \<Rightarrow> 'a option" where
  "pop xs = (if xs = [] then None else Some (last xs))"

text \<open>
  The first block of \<^verbatim>\<open>extractFieldMetadata\<close>: the enumeration that makes it return
  early. \<^verbatim>\<open>property.$ref && defs\<close> holds for a non-empty string and a definitions object;
  \<^verbatim>\<open>defName || ""\<close> is the popped segment; \<^verbatim>\<open>definition?.enum\<close> holds for every array,
  the empty one too.
\<close>

definition resolveRefEnum ::
  "PipelineSchemaProperty \<Rightarrow> (string \<rightharpoonup> SchemaDefinition) option \<Rightarrow> json list option" where
  "resolveRefEnum property ds =
     (case pref property of
        None \<Rightarrow> None
      | Some refPath \<Rightarrow>
          if refPath = [] then None
          else (case ds of
                  None \<Rightarrow> None
                | Some table \<Rightarrow>
                    (let defName = pop (js_split (CHR ''/'') refPath);
                         defn = table (case defName of None \<Rightarrow> [] | Some n \<Rightarrow> n)
                     in (case defn of
                           None \<Rightarrow> None
                         | Some d \<Rightarrow> denum d))))"

text \<open>The \<^verbatim>\<open>switch (property.type)\<close>: the descriptor's type, \<open>None\<close> for its
  \<^verbatim>\<open>default: return null\<close>.\<close>

definition classifyType :: "PipelineSchemaProperty \<Rightarrow> string option" where
  "classifyType property =
     (case ptype property of
        None \<Rightarrow> None
      | Some t \<Rightarrow>
          if t = ''boolean'' then Some ''boolean''
          else if t = ''integer'' then Some ''integer''
          else if t = ''number'' then Some ''number''
          else if t = ''string'' then
            (if penum property \<noteq> None then Some ''enum'' else Some ''string'')
          else None)"

definition deriveStep :: "string \<Rightarrow> double option \<Rightarrow> double option \<Rightarrow> double option" where
  "deriveStep t minimum maximum =
     (if t = ''integer'' then Some (round_double 1)
      else if t = ''number'' then
        (case minimum of
           None \<Rightarrow> Some (round_double 0.1)
         | Some mn \<Rightarrow>
             (case maximum of
                None \<Rightarrow> Some (round_double 0.1)
              | Some mx \<Rightarrow>
                  (let range = double_sub mx mn
                   in if double_less range (round_double 1) then Some (round_double 0.01)
                      else Some (round_double 0.1))))
      else None)"

definition extractFieldMetadata ::
  "string \<Rightarrow> PipelineSchemaProperty \<Rightarrow> (string \<rightharpoonup> SchemaDefinition) option
     \<Rightarrow> SchemaFieldMetadata option" where
  "extractFieldMetadata fieldName property ds =
     (case resolveRefEnum property ds of
        Some vs \<Rightarrow>
          Some \<lparr>name = fieldName, ftype = ''enum'', fdefault = pdefault property,
                fdescription = pdescription property, fminimum = None, fmaximum = None,
                enumValues = Some vs, step = None\<rparr>
      | None \<Rightarrow>
          (case classifyType property of
             None \<Rightarrow> None
           | Some t \<Rightarrow>
               Some \<lparr>name = fieldName, ftype = t, fdefault = pdefault property,
                     fdescription = pdescription property, fminimum = pminimum property,
                     fmaximum = pmaximum property, enumValues = penum property,
                     step = deriveStep t (pminimum property) (pmaximum property)\<rparr>))"

text \<open>
  The \<^verbatim>\<open>for\<close> loop of \<^verbatim>\<open>extractCustomSchemaFields\<close> over the entries that are left, with
  the object \<^verbatim>\<open>customFields\<close> built so far. \<^verbatim>\<open>customFields[fieldName] = metadata\<close>
  replaces the value of a key that is there and appends a new key.
\<close>

fun collectFields ::
  "string list \<Rightarrow> (string \<rightharpoonup> SchemaDefinition) option \<Rightarrow> (string \<times> PipelineSchemaProperty) list
     \<Rightarrow> (string \<times> SchemaFieldMetadata) list \<Rightarrow> (string \<times> SchemaFieldMetadata) list" where
  "collectFields allExcludedFields ds [] customFields = customFields"
| "collectFields allExcludedFields ds ((fieldName, property) # rest) customFields =
     (if fieldName \<in> set allExcludedFields
      then collectFields allExcludedFields ds rest customFields
      else (case extractFieldMetadata fieldName property ds of
              None \<Rightarrow> collectFields allExcludedFields ds rest customFields
            | Some metadata \<Rightarrow>
                collectFields allExcludedFields ds rest
                  (AList.update fieldName metadata customFields)))"

text \<open>The entry point. An omitted \<^verbatim>\<open>excludeFields\<close> is the empty list.\<close>

definition extractCustomSchemaFields ::
  "PipelineConfigSchema option \<Rightarrow> string list \<Rightarrow> (string \<times> SchemaFieldMetadata) list" where
  "extractCustomSchemaFields configSchema excludeFields =
     (case configSchema of
        None \<Rightarrow> []
      | Some cs \<Rightarrow>
          (case properties cs of
             None \<Rightarrow> []
           | Some entries \<Rightarrow>
               collectFields (HARDCODED_FIELDS @ excludeFields) (defs cs) entries []))"

section \<open>The extractor on run-time values\<close>

text \<open>
  TypeScript types are not checked when the program runs. Three operations of the source
  raise a \<^verbatim>\<open>TypeError\<close> on a value outside the declared type: reading \<^verbatim>\<open>property.$ref\<close> of
  a property that is \<^verbatim>\<open>null\<close> or \<^verbatim>\<open>undefined\<close>, calling \<^verbatim>\<open>refPath.split\<close> on a reference that
  is not a string, and spreading an \<^verbatim>\<open>excludeFields\<close> that is not iterable. This section
  translates the source again for inputs that are wide enough to hold such values, with the
  failure as a result. At every other position a JSON value outside the declared type
  raises nothing (it is compared with \<^verbatim>\<open>===\<close>, tested for truth, coerced by \<^verbatim>\<open>-\<close> or
  copied), and those positions keep their declared types.
\<close>

datatype error = TypeError

text \<open>\<^verbatim>\<open>ToBoolean\<close> of a JSON value, as \<^verbatim>\<open>&&\<close> and \<^verbatim>\<open>if\<close> apply it.\<close>

fun truthy :: "json \<Rightarrow> bool" where
  "truthy JNull = False"
| "truthy (JBool b) = b"
| "truthy (JNum n) = (n \<noteq> Finite 0 \<and> n \<noteq> NegZero \<and> n \<noteq> NaN)"
| "truthy (JStr s) = (s \<noteq> [])"
| "truthy (JArr xs) = True"
| "truthy (JObj kvs) = True"

text \<open>
  The run-time value of one property of the schema. \<open>Nullish\<close> is \<^verbatim>\<open>null\<close> or
  \<^verbatim>\<open>undefined\<close>. \<open>Members r property\<close> is any other value: its member \<^verbatim>\<open>$ref\<close> holds \<open>r\<close>,
  any JSON value or \<open>None\<close> for \<^verbatim>\<open>undefined\<close>, and its other members are those of
  \<open>property\<close>, whose own \<open>pref\<close> is not read. A primitive value reads like \<^verbatim>\<open>{}\<close>.
\<close>

datatype PropertyValue = Nullish | Members "json option" PipelineSchemaProperty

record RuntimeSchema =
  rproperties :: "(string \<times> PropertyValue) list option"
  rdefs :: "(string \<rightharpoonup> SchemaDefinition) option"

text \<open>
  The elements that \<^verbatim>\<open>...v\<close> contributes to an array literal: those of an array, the
  characters of a string, and a \<^verbatim>\<open>TypeError\<close> for a value that is not iterable.
\<close>

fun spread :: "json \<Rightarrow> error + json list" where
  "spread (JArr xs) = Inr xs"
| "spread (JStr s) = Inr (map (\<lambda>c. JStr [c]) s)"
| "spread v = Inl TypeError"

text \<open>
  The first block of \<^verbatim>\<open>extractFieldMetadata\<close> once more. The test \<^verbatim>\<open>property.$ref && defs\<close>
  comes first; only then is \<^verbatim>\<open>split\<close> called, which a value that is not a string does not
  have.
\<close>

definition resolveRefEnumRt ::
  "json option \<Rightarrow> (string \<rightharpoonup> SchemaDefinition) option \<Rightarrow> error + json list option" where
  "resolveRefEnumRt r ds =
     (case r of
        None \<Rightarrow> Inr None
      | Some v \<Rightarrow>
          if \<not> truthy v then Inr None
          else (case ds of
                  None \<Rightarrow> Inr None
                | Some table \<Rightarrow>
                    (case v of
                       JStr refPath \<Rightarrow>
                         (let defName = pop (js_split (CHR ''/'') refPath);
                              defn = table (case defName of None \<Rightarrow> [] | Some n \<Rightarrow> n)
                          in (case defn of
                                None \<Rightarrow> Inr None
                              | Some d \<Rightarrow> Inr (denum d)))
                     | _ \<Rightarrow> Inl TypeError)))"

definition extractFieldMetadataRt ::
  "string \<Rightarrow> PropertyValue \<Rightarrow> (string \<rightharpoonup> SchemaDefinition) option
     \<Rightarrow> error + SchemaFieldMetadata option" where
  "extractFieldMetadataRt fieldName pv ds =
     (case pv of
        Nullish \<Rightarrow> Inl TypeError
      | Members r property \<Rightarrow>
          (case resolveRefEnumRt r ds of
             Inl e \<Rightarrow> Inl e
           | Inr (Some vs) \<Rightarrow>
               Inr (Some \<lparr>name = fieldName, ftype = ''enum'', fdefault = pdefault property,
                     fdescription = pdescription property, fminimum = None, fmaximum = None,
                     enumValues = Some vs, step = None\<rparr>)
           | Inr None \<Rightarrow>
               (case classifyType property of
                  None \<Rightarrow> Inr None
                | Some t \<Rightarrow>
                    Inr (Some \<lparr>name = fieldName, ftype = t, fdefault = pdefault property,
                          fdescription = pdescription property, fminimum = pminimum property,
                          fmaximum = pmaximum property, enumValues = penum property,
                          step = deriveStep t (pminimum property) (pmaximum property)\<rparr>))))"

text \<open>The loop; a \<^verbatim>\<open>TypeError\<close> ends it.\<close>

fun collectFieldsRt ::
  "json list \<Rightarrow> (string \<rightharpoonup> SchemaDefinition) option \<Rightarrow> (string \<times> PropertyValue) list
     \<Rightarrow> (string \<times> SchemaFieldMetadata) list \<Rightarrow> error + (string \<times> SchemaFieldMetadata) list" where
  "collectFieldsRt allExcludedFields ds [] customFields = Inr customFields"
| "collectFieldsRt allExcludedFields ds ((fieldName, property) # rest) customFields =
     (if JStr fieldName \<in> set allExcludedFields
      then collectFieldsRt allExcludedFields ds rest customFields
      else (case extractFieldMetadataRt fieldName property ds of
              Inl e \<Rightarrow> Inl e
            | Inr None \<Rightarrow> collectFieldsRt allExcludedFields ds rest customFields
            | Inr (Some metadata) \<Rightarrow>
                collectFieldsRt allExcludedFields ds rest
                  (AList.update fieldName metadata customFields)))"

text \<open>
  The entry point. The early return comes before the \<^verbatim>\<open>Set\<close> is built, so an
  \<^verbatim>\<open>excludeFields\<close> that is not iterable is only met when there are properties. The
  members of the set are JSON values; \<^verbatim>\<open>has(fieldName)\<close> finds a string.
\<close>

definition extractCustomSchemaFieldsRt ::
  "RuntimeSchema option \<Rightarrow> json option
     \<Rightarrow> error + (string \<times> SchemaFieldMetadata) list" where
  "extractCustomSchemaFieldsRt configSchema excludeFields =
     (case configSchema of
        None \<Rightarrow> Inr []
      | Some cs \<Rightarrow>
          (case rproperties cs of
             None \<Rightarrow> Inr []
           | Some entries \<Rightarrow>
               (case spread (case excludeFields of None \<Rightarrow> JArr [] | Some v \<Rightarrow> v) of
                  Inl e \<Rightarrow> Inl e
                | Inr extra \<Rightarrow>
                    collectFieldsRt (map JStr HARDCODED_FIELDS @ extra) (rdefs cs) entries [])))"

text \<open>An input of the declared types as a run-time value.\<close>

definition runtimeProperty :: "PipelineSchemaProperty \<Rightarrow> PropertyValue" where
  "runtimeProperty property = Members (map_option JStr (pref property)) property"

definition runtimeSchema :: "PipelineConfigSchema \<Rightarrow> RuntimeSchema" where
  "runtimeSchema cs =
     \<lparr>rproperties = map_option (map (\<lambda>(k, p). (k, runtimeProperty p))) (properties cs),
      rdefs = defs cs\<rparr>"

section \<open>Enumeration order and invocations\<close>

text \<open>
  \<^verbatim>\<open>Object.entries\<close> does not enumerate an object in the order in which its properties were
  declared: the names that are array indices (canonical decimal numerals up to
  \<open>2 ^ 32 - 2\<close>) come first, in ascending numeric order, and the other names follow in the
  order of their insertion. \<open>objectEntries\<close> gives the enumeration of an object from its
  properties in insertion order (for a schema parsed from JSON, the order of the
  document).
\<close>

definition digitsValue :: "string \<Rightarrow> nat" where
  "digitsValue s = foldl (\<lambda>n c. 10 * n + (of_char c - 48)) 0 s"

definition isArrayIndex :: "string \<Rightarrow> bool" where
  "isArrayIndex s =
     (s \<noteq> [] \<and> list_all (\<lambda>c. c \<in> set ''0123456789'') s
      \<and> (s = ''0'' \<or> hd s \<noteq> CHR ''0'') \<and> digitsValue s \<le> 4294967294)"

definition objectEntries :: "(string \<times> 'v) list \<Rightarrow> (string \<times> 'v) list" where
  "objectEntries inserted =
     sort_key (\<lambda>e. digitsValue (fst e)) (filter (\<lambda>e. isArrayIndex (fst e)) inserted)
       @ filter (\<lambda>e. \<not> isArrayIndex (fst e)) inserted"

text \<open>
  An invocation in its context. The module holds the array \<^verbatim>\<open>HARDCODED_FIELDS\<close>, whose
  elements a program could change; the arguments are references to objects, and the result
  is a reference to a new object. The heap is the list of the objects allocated so far, an
  address is a position in it. Only the object that an invocation returns is recorded;
  the set and the descriptors it builds on the way are reachable from nowhere else.
\<close>

datatype heap_value =
    SchemaValue PipelineConfigSchema
  | NamesValue "string list"
  | FieldsValue "(string \<times> SchemaFieldMetadata) list"

record js_state =
  hardcodedFields :: "string list"
  heap :: "heap_value list"

definition deref :: "js_state \<Rightarrow> nat \<Rightarrow> heap_value option" where
  "deref st a = (if a < length (heap st) then Some (heap st ! a) else None)"

definition allocate :: "js_state \<Rightarrow> heap_value \<Rightarrow> nat \<times> js_state" where
  "allocate st v = (length (heap st), st\<lparr>heap := heap st @ [v]\<rparr>)"

text \<open>
  What an argument denotes. For \<^verbatim>\<open>configSchema\<close>, \<open>Some None\<close> is \<^verbatim>\<open>undefined\<close> and
  \<open>Some (Some cs)\<close> a reference to a schema; for \<^verbatim>\<open>excludeFields\<close>, an omitted argument is
  the empty list of the default parameter. \<open>None\<close> is a reference that does not lead to an
  object of the declared type.
\<close>

definition schemaAt :: "js_state \<Rightarrow> nat option \<Rightarrow> PipelineConfigSchema option option" where
  "schemaAt st configSchema =
     (case configSchema of
        None \<Rightarrow> Some None
      | Some a \<Rightarrow>
          (case deref st a of
             Some (SchemaValue cs) \<Rightarrow> Some (Some cs)
           | _ \<Rightarrow> None))"

definition namesAt :: "js_state \<Rightarrow> nat option \<Rightarrow> string list option" where
  "namesAt st excludeFields =
     (case excludeFields of
        None \<Rightarrow> Some []
      | Some e \<Rightarrow>
          (case deref st e of
             Some (NamesValue names) \<Rightarrow> Some names
           | _ \<Rightarrow> None))"

text \<open>
  \<^verbatim>\<open>extractCustomSchemaFields(configSchema, excludeFields)\<close> on references. Both early
  returns and the end of the function return a new object; the built-in list is read from
  the module.
\<close>

definition invoke :: "js_state \<Rightarrow> nat option \<Rightarrow> nat option \<Rightarrow> (nat \<times> js_state) option" where
  "invoke st configSchema excludeFields =
     (case schemaAt st configSchema of
        None \<Rightarrow> None
      | Some None \<Rightarrow> Some (allocate st (FieldsValue []))
      | Some (Some cs) \<Rightarrow>
          (case properties cs of
             None \<Rightarrow> Some (allocate st (FieldsValue []))
           | Some entries \<Rightarrow>
               (case namesAt st excludeFields of
                  None \<Rightarrow> None
                | Some extra \<Rightarrow>
                    Some (allocate st
                      (FieldsValue
                         (collectFields (hardcodedFields st @ extra) (defs cs) entries []))))))"

section \<open>Notions of the specification and example inputs\<close>

text \<open>
  The trailing path segment of a reference, in the words of the specification: the portion
  after the final path separator (the whole string when there is none).
\<close>

definition trailing_segment :: "string \<Rightarrow> string" where
  "trailing_segment r = rev (takeWhile (\<lambda>c. c \<noteq> CHR ''/'') (rev r))"

text \<open>
  What one iteration of the loop contributes for an entry: nothing for an excluded name or
  an unclassified property, the name with its descriptor otherwise.
\<close>

abbreviation entryResult ::
  "string list \<Rightarrow> (string \<rightharpoonup> SchemaDefinition) option \<Rightarrow> string \<times> PipelineSchemaProperty
     \<Rightarrow> (string \<times> SchemaFieldMetadata) option" where
  "entryResult ex ds \<equiv>
     (\<lambda>(k, p). if k \<in> set ex then None else map_option (Pair k) (extractFieldMetadata k p ds))"

text \<open>The property \<^verbatim>\<open>{}\<close>, from which the examples are built.\<close>

definition emptyProperty :: PipelineSchemaProperty where
  "emptyProperty =
     \<lparr>ptype = None, pdefault = None, pdescription = None, pminimum = None, pmaximum = None,
      penum = None, pref = None\<rparr>"

text \<open>A definitions table with one enumeration, \<^verbatim>\<open>{Sampler: {enum: ["euler", "dpm++"]}}\<close>.\<close>

definition exampleDefs :: "string \<rightharpoonup> SchemaDefinition" where
  "exampleDefs = [''Sampler'' \<mapsto> \<lparr>denum = Some [JStr ''euler'', JStr ''dpm++'']\<rparr>]"

text \<open>
  A schema with a built-in-excluded name, numeric fields with wide and narrow ranges, a
  reference to the enumeration, and an unsupported type.
\<close>

definition exampleSchema :: PipelineConfigSchema where
  "exampleSchema =
     \<lparr>properties = Some
        [(''height'', emptyProperty\<lparr>ptype := Some ''integer'', pdefault := Some (JNum (round_double 512))\<rparr>),
         (''cfg_scale'', emptyProperty\<lparr>ptype := Some ''number'', pdefault := Some (JNum (round_double 7.5)),
             pminimum := Some (round_double 1), pmaximum := Some (round_double 20)\<rparr>),
         (''strength'', emptyProperty\<lparr>ptype := Some ''number'', pminimum := Some (round_double 0),
             pmaximum := Some (round_double 0.8)\<rparr>),
         (''sampler'', emptyProperty\<lparr>pref := Some ''#/$defs/Sampler'',
             pdefault := Some (JStr ''euler''), pdescription := Some ''Sampling method'',
             pminimum := Some (round_double 0), pmaximum := Some (round_double 10)\<rparr>),
         (''tags'', emptyProperty\<lparr>ptype := Some ''array''\<rparr>)],
      defs = Some exampleDefs\<rparr>"

text \<open>
  A property whose reference is the empty string, with a definitions table that has an
  entry under the empty name: \<^verbatim>\<open>{properties: {sampler: {$ref: ""}},
  $defs: {"": {enum: ["euler", "dpm++"]}}}\<close>.
\<close>

definition emptyRefSchema :: PipelineConfigSchema where
  "emptyRefSchema =
     \<lparr>properties = Some [(''sampler'', emptyProperty\<lparr>pref := Some ''''\<rparr>)],
      defs = Some ['''' \<mapsto> \<lparr>denum = Some [JStr ''euler'', JStr ''dpm++'']\<rparr>]\<rparr>"

text \<open>
  Inline enumerations on an integer property and an empty one on a string property:
  \<^verbatim>\<open>{properties: {level: {type: "integer", enum: [1, 2, 3]},
  choice: {type: "string", enum: []}}}\<close>.
\<close>

definition inlineEnumSchema :: PipelineConfigSchema where
  "inlineEnumSchema =
     \<lparr>properties = Some
        [(''level'', emptyProperty\<lparr>ptype := Some ''integer'',
             penum := Some [JNum (round_double 1), JNum (round_double 2), JNum (round_double 3)]\<rparr>),
         (''choice'', emptyProperty\<lparr>ptype := Some ''string'', penum := Some []\<rparr>)],
      defs = None\<rparr>"

text \<open>A schema declared with the name \<open>b\<close> before the name \<open>1\<close>.\<close>

definition indexNameDeclared :: "(string \<times> PipelineSchemaProperty) list" where
  "indexNameDeclared =
     [(''b'', emptyProperty\<lparr>ptype := Some ''boolean''\<rparr>),
      (''1'', emptyProperty\<lparr>ptype := Some ''boolean''\<rparr>)]"

text \<open>
  A state with two copies of the example schema and two copies of an exclusion list.
\<close>

definition exampleState :: js_state where
  "exampleState =
     \<lparr>hardcodedFields = HARDCODED_FIELDS,
      heap = [SchemaValue exampleSchema, NamesValue [''cfg_scale''], SchemaValue exampleSchema,
              NamesValue [''cfg_scale'']]\<rparr>"

section \<open>Auxiliary facts\<close>

text \<open>
  Rounding near 1: an exact value of at least 1 is not rounded below 1, and one of at most
  \<open>1 - 2 ^ -53\<close>, the double next below 1, is not rounded up to 1.
\<close>

lemma bitlen_pos: "0 < x \<Longrightarrow> 1 \<le> bitlen x"
  using bitlen_eq_zero_iff [of x] bitlen_nonneg [of x] by linarith

lemma pow2_int: "0 \<le> e \<Longrightarrow> (2::rat) powi e = of_int (2 ^ nat e)"
  by (simp add: power_int_def)

lemma floor_log2_lower: "0 < a \<Longrightarrow> 2 powi (floor_log2 a) \<le> a"
proof (cases "1 \<le> a")
  case True
  let ?x = "\<lfloor>a\<rfloor>"
  have x: "0 < ?x" using True by linarith
  have b: "1 \<le> bitlen ?x" using x by (rule bitlen_pos)
  have "(2::int) ^ nat (bitlen ?x - 1) \<le> ?x" using bitlen_bounds [OF x] by simp
  then have "(of_int (2 ^ nat (bitlen ?x - 1)) :: rat) \<le> of_int ?x" by (simp only: of_int_le_iff)
  also have "\<dots> \<le> a" by simp
  finally show ?thesis using True b by (simp add: floor_log2_def pow2_int)
next
  case False
  assume pos: "0 < a"
  let ?n = "\<lceil>1 / a\<rceil> - 1"
  have "1 < 1 / a" using False pos by simp
  then have n: "0 < ?n" by linarith
  have "?n < 2 ^ nat (bitlen ?n)" using bitlen_bounds [OF n] by simp
  then have "\<lceil>1 / a\<rceil> \<le> 2 ^ nat (bitlen ?n)" by linarith
  then have "(of_int \<lceil>1 / a\<rceil> :: rat) \<le> of_int (2 ^ nat (bitlen ?n))" by (simp only: of_int_le_iff)
  moreover have "1 / a \<le> of_int \<lceil>1 / a\<rceil>" by (rule le_of_int_ceiling)
  ultimately have "1 / a \<le> of_int (2 ^ nat (bitlen ?n))" by (rule order_trans [rotated])
  then have "1 / a \<le> 2 ^ nat (bitlen ?n)" by simp
  then have "1 / 2 ^ nat (bitlen ?n) \<le> a"
    using pos by (simp add: field_simps)
  moreover have "(2::rat) powi (- bitlen ?n) = 1 / 2 ^ nat (bitlen ?n)"
    using bitlen_nonneg [of ?n] by (simp add: power_int_def field_simps)
  ultimately show ?thesis using False by (simp add: floor_log2_def)
qed

lemma floor_log2_upper: "0 < a \<Longrightarrow> a < 2 powi (floor_log2 a + 1)"
proof (cases "1 \<le> a")
  case True
  let ?x = "\<lfloor>a\<rfloor>"
  have x: "0 < ?x" using True by linarith
  have b: "1 \<le> bitlen ?x" using x by (rule bitlen_pos)
  have "?x < 2 ^ nat (bitlen ?x)" using bitlen_bounds [OF x] by simp
  then have "?x + 1 \<le> 2 ^ nat (bitlen ?x)" by linarith
  then have "(of_int (?x + 1) :: rat) \<le> of_int (2 ^ nat (bitlen ?x))" by (simp only: of_int_le_iff)
  moreover have "a < of_int (?x + 1)" by linarith
  ultimately have "a < of_int (2 ^ nat (bitlen ?x))" by linarith
  then show ?thesis using True b by (simp add: floor_log2_def pow2_int)
next
  case False
  assume pos: "0 < a"
  let ?n = "\<lceil>1 / a\<rceil> - 1"
  have "1 < 1 / a" using False pos by simp
  then have n: "0 < ?n" by linarith
  have b: "1 \<le> bitlen ?n" using n by (rule bitlen_pos)
  have "(2::int) ^ nat (bitlen ?n - 1) \<le> ?n" using bitlen_bounds [OF n] by simp
  then have "(of_int (2 ^ nat (bitlen ?n - 1)) :: rat) \<le> of_int ?n" by (simp only: of_int_le_iff)
  moreover have "of_int ?n < 1 / a" by linarith
  ultimately have "(2::rat) ^ nat (bitlen ?n - 1) < 1 / a" by simp
  then have "a < 1 / 2 ^ nat (bitlen ?n - 1)"
    using pos by (simp add: field_simps)
  moreover have "(2::rat) powi (- bitlen ?n + 1) = 1 / 2 ^ nat (bitlen ?n - 1)"
    using b by (simp add: power_int_def field_simps nat_diff_distrib)
  ultimately show ?thesis using False by (simp add: floor_log2_def)
qed

lemma round_half_even_ge: "of_int n \<le> x \<Longrightarrow> n \<le> round_half_even x"
proof -
  assume "of_int n \<le> x"
  then have "n \<le> \<lfloor>x\<rfloor>" by (simp add: le_floor_iff)
  then show ?thesis by (simp add: round_half_even_def Let_def)
qed

lemma round_half_even_le: "x \<le> of_int n \<Longrightarrow> round_half_even x \<le> n"
proof -
  assume a: "x \<le> of_int n"
  then have f: "\<lfloor>x\<rfloor> \<le> n" by (simp add: floor_le_iff)
  show ?thesis
  proof (cases "\<lfloor>x\<rfloor> = n")
    case True
    then have "x - of_int \<lfloor>x\<rfloor> \<le> 0" using a by simp
    then show ?thesis using True by (simp add: round_half_even_def Let_def)
  next
    case False
    then have "\<lfloor>x\<rfloor> + 1 \<le> n" using f by linarith
    then show ?thesis by (simp add: round_half_even_def Let_def)
  qed
qed


lemma floor_log2_neg_iff: "0 < a \<Longrightarrow> floor_log2 a < 0 \<longleftrightarrow> a < 1"
proof
  assume pos: "0 < a" and neg: "floor_log2 a < 0"
  have "(2::rat) powi (floor_log2 a + 1) \<le> 2 powi 0"
    using neg by (intro power_int_increasing) auto
  then show "a < 1" using floor_log2_upper [OF pos] by simp
next
  assume pos: "0 < a" and lt: "a < 1"
  show "floor_log2 a < 0"
  proof (rule ccontr)
    assume "\<not> floor_log2 a < 0"
    then have "(1::rat) \<le> 2 powi (floor_log2 a)" by (intro one_le_power_int) auto
    then show False using floor_log2_lower [OF pos] lt by linarith
  qed
qed

lemma round_double_ge_one:
  assumes "1 \<le> a"
  shows "\<not> double_less (round_double a) (Finite 1)"
proof -
  have pos: "0 < a" using assms by linarith
  define e where "e = max (floor_log2 \<bar>a\<bar>) (- 1022)"
  define ulp :: rat where "ulp = 2 powi (e - 52)"
  define r where "r = of_int (round_half_even (\<bar>a\<bar> / ulp)) * ulp"
  have abs: "\<bar>a\<bar> = a" using pos by simp
  have fl: "0 \<le> floor_log2 a" using floor_log2_neg_iff [OF pos] assms by linarith
  then have e: "e = floor_log2 a" by (simp add: e_def abs)
  have ulp_pos: "0 < ulp" by (simp add: ulp_def)
  have scale: "2 powi e = ulp * 2 ^ 52"
    by (simp add: ulp_def power_int_diff)
  have "ulp * 2 ^ 52 \<le> a" using floor_log2_lower [OF pos] e scale by simp
  then have "of_int (2 ^ 52) \<le> a / ulp" using ulp_pos by (simp add: field_simps)
  then have "2 ^ 52 \<le> round_half_even (a / ulp)" by (rule round_half_even_ge)
  then have "(of_int (2 ^ 52) :: rat) \<le> of_int (round_half_even (a / ulp))"
    by (simp only: of_int_le_iff)
  then have "of_int (2 ^ 52) * ulp \<le> r"
    unfolding r_def abs using ulp_pos by (intro mult_right_mono) auto
  then have "2 powi e \<le> r" using scale by (simp add: mult.commute)
  moreover have "(1::rat) \<le> 2 powi e" using fl e by (intro one_le_power_int) auto
  ultimately have r1: "1 \<le> r" by linarith
  have "round_double a =
      (if r = 0 then Finite 0 else if 1023 < floor_log2 r then PosInf else Finite r)"
    unfolding r_def ulp_def e_def using pos by (simp add: round_double_def Let_def)
  then show ?thesis using r1 by simp
qed

lemma round_double_less_one:
  assumes "a \<le> 1 - 1 / 2 ^ 53"
  shows "double_less (round_double a) (Finite 1)"
proof -
  define e where "e = max (floor_log2 \<bar>a\<bar>) (- 1022)"
  define ulp :: rat where "ulp = 2 powi (e - 52)"
  define r where "r = of_int (round_half_even (\<bar>a\<bar> / ulp)) * ulp"
  have ulp_pos: "0 < ulp" by (simp add: ulp_def)
  have "of_int 0 \<le> \<bar>a\<bar> / ulp" using ulp_pos by simp
  then have "0 \<le> round_half_even (\<bar>a\<bar> / ulp)" by (rule round_half_even_ge)
  then have r0: "0 \<le> r" unfolding r_def using ulp_pos by (intro mult_nonneg_nonneg) auto
  have unfold: "round_double a =
      (if r = 0 then (if 0 < a then Finite 0 else NegZero)
       else if 1023 < floor_log2 r then (if 0 < a then PosInf else NegInf)
       else Finite (if 0 < a then r else - r))" if "a \<noteq> 0"
    unfolding r_def ulp_def e_def using that by (simp add: round_double_def Let_def)
  consider "a = 0" | "a < 0" | "0 < a" by linarith
  then show ?thesis
  proof cases
    case 1
    then show ?thesis by (simp add: round_double_def)
  next
    case 2
    then show ?thesis using unfold r0 by simp
  next
    case 3
    have lt1: "a < 1" using assms by (simp add: field_simps)
    have abs: "\<bar>a\<bar> = a" using 3 by simp
    have fl: "floor_log2 a < 0" using floor_log2_neg_iff [OF 3] lt1 by simp
    then have e_neg: "e \<le> - 1" and fl_e: "floor_log2 a \<le> e" by (simp_all add: e_def abs)
    have "(2::rat) powi (floor_log2 a + 1) \<le> 2 powi (e + 1)"
      using fl_e by (intro power_int_increasing) auto
    then have a_up: "a < 2 powi (e + 1)" using floor_log2_upper [OF 3] by linarith
    have scale: "2 powi (e + 1) = ulp * 2 ^ 53"
      by (simp add: ulp_def power_int_diff power_int_add)
    have r_lt: "r < 1"
    proof (cases "e = - 1")
      case True
      then have ulp: "ulp = 1 / 2 ^ 53" by (simp add: ulp_def power_int_def field_simps)
      have "a / ulp \<le> of_int (2 ^ 53 - 1)"
        using assms by (simp add: ulp field_simps)
      then have "round_half_even (a / ulp) \<le> 2 ^ 53 - 1" by (rule round_half_even_le)
      then have "(of_int (round_half_even (a / ulp)) :: rat) \<le> of_int (2 ^ 53 - 1)"
        by (simp only: of_int_le_iff)
      then have "r \<le> of_int (2 ^ 53 - 1) * ulp"
        unfolding r_def abs using ulp_pos by (intro mult_right_mono) auto
      then show ?thesis by (simp add: ulp)
    next
      case False
      then have e2: "e + 1 \<le> - 1" using e_neg by linarith
      have "a / ulp \<le> of_int (2 ^ 53)"
        using a_up scale ulp_pos by (simp add: field_simps)
      then have "round_half_even (a / ulp) \<le> 2 ^ 53" by (rule round_half_even_le)
      then have "(of_int (round_half_even (a / ulp)) :: rat) \<le> of_int (2 ^ 53)"
        by (simp only: of_int_le_iff)
      then have "r \<le> of_int (2 ^ 53) * ulp"
        unfolding r_def abs using ulp_pos by (intro mult_right_mono) auto
      then have "r \<le> 2 powi (e + 1)" using scale by (simp add: mult.commute)
      moreover have "(2::rat) powi (e + 1) \<le> 2 powi (- 1)"
        using e2 by (intro power_int_increasing) auto
      ultimately show ?thesis by (simp add: power_int_def)
    qed
    have no_overflow: "\<not> 1023 < floor_log2 r" if "r \<noteq> 0"
    proof -
      have "0 < r" using that r0 by linarith
      then have "floor_log2 r < 0" using floor_log2_neg_iff r_lt by simp
      then show ?thesis by linarith
    qed
    show ?thesis using unfold 3 r_lt no_overflow by simp
  qed
qed

lemma round_double_one: "round_double 1 = Finite 1"
  by code_simp

text \<open>The string functions and the loop.\<close>

lemma js_split_nonempty: "js_split sep s \<noteq> []"
  by (induction s) (auto split: list.splits)

lemma js_split_no_sep: "sep \<notin> set s \<Longrightarrow> js_split sep s = [s]"
  by (induction s) auto

lemma js_split_sep: "sep \<in> set s \<Longrightarrow> \<exists>seg seg' segs. js_split sep s = seg # seg' # segs"
proof (induction s)
  case Nil
  then show ?case by simp
next
  case (Cons c cs)
  show ?case
  proof (cases "c = sep")
    case True
    then show ?thesis using js_split_nonempty [of sep cs]
      by (cases "js_split sep cs") auto
  next
    case False
    then have "sep \<in> set cs" using Cons.prems by simp
    then obtain seg seg' segs where "js_split sep cs = seg # seg' # segs"
      using Cons.IH by blast
    then show ?thesis using False by simp
  qed
qed

lemma last_js_split:
  "last (js_split sep s) = rev (takeWhile (\<lambda>c. c \<noteq> sep) (rev s))"
proof (induction s)
  case Nil
  then show ?case by simp
next
  case (Cons c cs)
  show ?case
  proof (cases "sep \<in> set cs")
    case True
    then obtain seg seg' segs where s: "js_split sep cs = seg # seg' # segs"
      using js_split_sep by blast
    have "last (js_split sep (c # cs)) = last (js_split sep cs)"
      using s by simp
    moreover have "takeWhile (\<lambda>c. c \<noteq> sep) (rev (c # cs)) = takeWhile (\<lambda>c. c \<noteq> sep) (rev cs)"
      using True by (auto simp: takeWhile_append)
    ultimately show ?thesis using Cons.IH by simp
  next
    case False
    then have cs: "js_split sep cs = [cs]" by (rule js_split_no_sep)
    show ?thesis
    proof (cases "c = sep")
      case True
      then show ?thesis using cs False by (simp add: takeWhile_append)
    next
      case False
      then show ?thesis using cs \<open>sep \<notin> set cs\<close> by (simp add: takeWhile_append)
    qed
  qed
qed

lemma update_fresh: "k \<notin> fst ` set al \<Longrightarrow> AList.update k v al = al @ [(k, v)]"
  by (induction al) auto

lemma collectFields_keys:
  "fst ` set (collectFields ex ds ps acc) \<subseteq> fst ` set acc \<union> (fst ` set ps - set ex)"
proof (induction ps arbitrary: acc)
  case Nil
  then show ?case by simp
next
  case (Cons e ps)
  obtain k p where e: "e = (k, p)" by (cases e)
  show ?case
  proof (cases "k \<in> set ex")
    case True
    then show ?thesis using Cons [of acc] by (auto simp: e)
  next
    case False
    show ?thesis
    proof (cases "extractFieldMetadata k p ds")
      case None
      then show ?thesis using Cons [of acc] False by (auto simp: e)
    next
      case (Some d)
      have "fst ` set (collectFields ex ds ps (AList.update k d acc))
              \<subseteq> insert k (fst ` set acc) \<union> (fst ` set ps - set ex)"
        using Cons [of "AList.update k d acc"] by (simp add: AList.dom_update)
      then show ?thesis using False Some by (auto simp: e)
    qed
  qed
qed

lemma collectFields_distinct:
  "distinct (map fst ps) \<Longrightarrow> fst ` set ps \<inter> fst ` set acc = {} \<Longrightarrow>
   collectFields ex ds ps acc =
     acc @ List.map_filter (\<lambda>(k, p). if k \<in> set ex then None
                                      else map_option (Pair k) (extractFieldMetadata k p ds)) ps"
proof (induction ps arbitrary: acc)
  case Nil
  then show ?case by (simp add:)
next
  case (Cons e ps)
  obtain k p where e: "e = (k, p)" by (cases e)
  show ?case
  proof (cases "k \<in> set ex")
    case True
    then show ?thesis using Cons by (simp add: e)
  next
    case False
    show ?thesis
    proof (cases "extractFieldMetadata k p ds")
      case None
      then show ?thesis using Cons False by (simp add: e)
    next
      case (Some d)
      have fresh: "k \<notin> fst ` set acc" using Cons.prems by (auto simp: e)
      have disj: "fst ` set ps \<inter> fst ` set (AList.update k d acc) = {}"
        using Cons.prems by (auto simp: e AList.dom_update)
      have dist: "distinct (map fst ps)" using Cons.prems by simp
      show ?thesis using Cons.IH [OF dist disj] False Some fresh
        by (simp add: e update_fresh)
    qed
  qed
qed


lemma pop_js_split: "pop (js_split (CHR ''/'') r) = Some (trailing_segment r)"
  by (simp add: pop_def js_split_nonempty last_js_split trailing_segment_def)

lemma resolveRefEnum_Some_iff:
  "resolveRefEnum property ds = Some vs \<longleftrightarrow>
     (\<exists>r table d. pref property = Some r \<and> r \<noteq> [] \<and> ds = Some table
        \<and> table (trailing_segment r) = Some d \<and> denum d = Some vs)"
  by (auto simp: resolveRefEnum_def pop_js_split split: option.splits)

lemma update_mem: "(a, b) \<in> set (AList.update k v al) \<Longrightarrow> (a, b) = (k, v) \<or> (a, b) \<in> set al"
  by (induction al) (auto split: if_splits)

lemma collectFields_mem:
  "(k, d) \<in> set (collectFields ex ds ps acc) \<Longrightarrow>
     (k, d) \<in> set acc \<or> (\<exists>p. (k, p) \<in> set ps \<and> k \<notin> set ex \<and> extractFieldMetadata k p ds = Some d)"
proof (induction ps arbitrary: acc)
  case Nil
  then show ?case by simp
next
  case (Cons e ps)
  obtain k' p' where e: "e = (k', p')" by (cases e)
  show ?case
  proof (cases "k' \<in> set ex")
    case True
    then show ?thesis using Cons.IH [of acc] Cons.prems by (auto simp: e)
  next
    case False
    show ?thesis
    proof (cases "extractFieldMetadata k' p' ds")
      case None
      then show ?thesis using Cons.IH [of acc] Cons.prems False by (auto simp: e)
    next
      case (Some d')
      have "(k, d) \<in> set (collectFields ex ds ps (AList.update k' d' acc))"
        using Cons.prems False Some by (simp add: e)
      then have "(k, d) \<in> set (AList.update k' d' acc)
          \<or> (\<exists>p. (k, p) \<in> set ps \<and> k \<notin> set ex \<and> extractFieldMetadata k p ds = Some d)"
        by (rule Cons.IH)
      then show ?thesis using False Some update_mem [of k d k' d' acc] by (auto simp: e)
    qed
  qed
qed

lemma map_filter_keys: "fst ` set (List.map_filter (entryResult ex ds) ps) \<subseteq> fst ` set ps"
  by (induction ps) (auto split: option.splits if_splits)

lemma map_of_map_filter:
  "distinct (map fst ps) \<Longrightarrow> (k, p) \<in> set ps \<Longrightarrow>
   map_of (List.map_filter (entryResult ex ds) ps) k =
     (if k \<in> set ex then None else extractFieldMetadata k p ds)"
proof (induction ps)
  case Nil
  then show ?case by simp
next
  case (Cons e ps)
  obtain k' p' where e: "e = (k', p')" by (cases e)
  show ?case
  proof (cases "k' = k")
    case True
    then have p: "p' = p" using Cons.prems by (auto simp: e rev_image_eqI)
    have "k \<notin> fst ` set (List.map_filter (entryResult ex ds) ps)"
      using Cons.prems True map_filter_keys [of ex ds ps] by (auto simp: e)
    then have "map_of (List.map_filter (entryResult ex ds) ps) k = None"
      by (simp add: map_of_eq_None_iff)
    then show ?thesis using True p by (auto simp: e split: option.splits)
  next
    case False
    then have "(k, p) \<in> set ps" using Cons.prems by (auto simp: e)
    then show ?thesis using Cons False by (auto simp: e split: option.splits)
  qed
qed

text \<open>
  The entries of \<open>properties\<close> come from \<^verbatim>\<open>Object.entries\<close>, so their names are distinct;
  the facts that follow say what the loop returns then.
\<close>

lemma extract_eq_map_filter:
  "properties cs = Some entries \<Longrightarrow> distinct (map fst entries) \<Longrightarrow>
   extractCustomSchemaFields (Some cs) excludeFields =
     List.map_filter (entryResult (HARDCODED_FIELDS @ excludeFields) (defs cs)) entries"
  by (simp add: extractCustomSchemaFields_def collectFields_distinct)

lemma extract_lookup:
  "properties cs = Some entries \<Longrightarrow> distinct (map fst entries) \<Longrightarrow> (k, p) \<in> set entries \<Longrightarrow>
   map_of (extractCustomSchemaFields (Some cs) excludeFields) k =
     (if k \<in> set HARDCODED_FIELDS \<union> set excludeFields then None
      else extractFieldMetadata k p (defs cs))"
  using map_of_map_filter [of entries k p "HARDCODED_FIELDS @ excludeFields" "defs cs"]
  by (simp add: extract_eq_map_filter)

lemma extract_mem:
  "properties cs = Some entries \<Longrightarrow> (k, d) \<in> set (extractCustomSchemaFields (Some cs) excludeFields) \<Longrightarrow>
   \<exists>p. (k, p) \<in> set entries \<and> extractFieldMetadata k p (defs cs) = Some d"
  using collectFields_mem [of k d "HARDCODED_FIELDS @ excludeFields" "defs cs" entries "[]"]
  by (auto simp: extractCustomSchemaFields_def)

lemma map_filter_key_order:
  "distinct (map fst ps) \<Longrightarrow>
   map fst (List.map_filter (entryResult ex ds) ps) =
     filter (\<lambda>k. k \<in> fst ` set (List.map_filter (entryResult ex ds) ps)) (map fst ps)"
proof (induction ps)
  case Nil
  then show ?case by simp
next
  case (Cons e ps)
  obtain k p where e: "e = (k, p)" by (cases e)
  let ?rest = "List.map_filter (entryResult ex ds) ps"
  have notin: "k \<notin> fst ` set ?rest"
    using Cons.prems map_filter_keys [of ex ds ps] by (auto simp: e)
  have ih: "map fst ?rest = filter (\<lambda>k. k \<in> fst ` set ?rest) (map fst ps)"
    using Cons by simp
  have same: "filter (\<lambda>x. x = k \<or> x \<in> fst ` set ?rest) (map fst ps)
                = filter (\<lambda>x. x \<in> fst ` set ?rest) (map fst ps)"
    using Cons.prems by (intro filter_cong) (auto simp: e)
  show ?case
  proof (cases "entryResult ex ds (k, p)")
    case None
    then have "List.map_filter (entryResult ex ds) (e # ps) = ?rest"
      by (simp add: e)
    then show ?thesis using ih notin by (simp add: e)
  next
    case (Some kd)
    then obtain d where kd: "kd = (k, d)" by (auto split: if_splits)
    have "List.map_filter (entryResult ex ds) (e # ps) = (k, d) # ?rest"
      using Some kd by (simp add: e)
    then show ?thesis using ih same by (simp add: e)
  qed
qed

lemma extract_absent:
  "properties cs = Some entries \<Longrightarrow> distinct (map fst entries) \<Longrightarrow> (k, p) \<in> set entries \<Longrightarrow>
   extractFieldMetadata k p (defs cs) = None \<Longrightarrow>
   k \<notin> fst ` set (extractCustomSchemaFields (Some cs) excludeFields)"
  using extract_lookup [of cs entries k p excludeFields]
  by (simp add: map_of_eq_None_iff split: if_splits)

text \<open>On inputs of the declared types the run-time translation returns what the typed one does.\<close>

lemma resolveRefEnumRt_typed:
  "resolveRefEnumRt (map_option JStr (pref property)) ds = Inr (resolveRefEnum property ds)"
  by (simp add: resolveRefEnumRt_def resolveRefEnum_def Let_def split: option.splits)

lemma extractFieldMetadataRt_typed:
  "extractFieldMetadataRt fieldName (runtimeProperty property) ds
     = Inr (extractFieldMetadata fieldName property ds)"
  by (simp add: extractFieldMetadataRt_def runtimeProperty_def resolveRefEnumRt_typed
      extractFieldMetadata_def split: option.splits)

lemma collectFieldsRt_typed:
  "collectFieldsRt (map JStr ex) ds (map (\<lambda>(k, p). (k, runtimeProperty p)) entries) acc
     = Inr (collectFields ex ds entries acc)"
proof (induction entries arbitrary: acc)
  case Nil
  then show ?case by simp
next
  case (Cons e entries)
  obtain k p where e: "e = (k, p)" by (cases e)
  have mem: "JStr k \<in> set (map JStr ex) \<longleftrightarrow> k \<in> set ex" by auto
  show ?case
    using Cons by (simp add: e mem extractFieldMetadataRt_typed split: option.splits del: set_map)
qed

lemma extractRt_typed:
  "extractCustomSchemaFieldsRt (map_option runtimeSchema configSchema)
       (Some (JArr (map JStr excludeFields)))
     = Inr (extractCustomSchemaFields configSchema excludeFields)"
  using collectFieldsRt_typed [of "HARDCODED_FIELDS @ excludeFields"]
  by (simp add: extractCustomSchemaFieldsRt_def extractCustomSchemaFields_def runtimeSchema_def
      split: option.splits)

lemma extractRt_typed_omitted:
  "extractCustomSchemaFieldsRt (map_option runtimeSchema configSchema) None
     = Inr (extractCustomSchemaFields configSchema [])"
  using collectFieldsRt_typed [of "HARDCODED_FIELDS"]
  by (simp add: extractCustomSchemaFieldsRt_def extractCustomSchemaFields_def runtimeSchema_def
      split: option.splits)

text \<open>Enumeration order and the heap.\<close>

lemma deref_kept:
  "deref st x \<noteq> None \<Longrightarrow> deref (st\<lparr>heap := heap st @ [v]\<rparr>) x = deref st x"
  by (auto simp: deref_def nth_append split: if_splits)

lemma schemaAt_kept:
  "schemaAt st a \<noteq> None \<Longrightarrow> schemaAt (st\<lparr>heap := heap st @ [v]\<rparr>) a = schemaAt st a"
  by (cases a) (auto simp: schemaAt_def deref_kept split: option.splits heap_value.splits)

lemma namesAt_kept:
  "namesAt st e \<noteq> None \<Longrightarrow> namesAt (st\<lparr>heap := heap st @ [v]\<rparr>) e = namesAt st e"
  by (cases e) (auto simp: namesAt_def deref_kept split: option.splits heap_value.splits)

lemma invoke_resolved:
  assumes "schemaAt st a = Some c" and "namesAt st e = Some ex"
  shows "invoke st a e =
           Some (allocate st (FieldsValue
             (case c of None \<Rightarrow> []
              | Some cs \<Rightarrow>
                  (case properties cs of None \<Rightarrow> []
                   | Some entries \<Rightarrow>
                       collectFields (hardcodedFields st @ ex) (defs cs) entries []))))"
  using assms by (simp add: invoke_def split: option.splits)

lemma distinct_keys_sort_key:
  "distinct (map fst (sort_key g xs)) = distinct (map fst xs)"
  by (simp add: distinct_map)

lemma objectEntries_distinct:
  "distinct (map fst d) \<Longrightarrow> distinct (map fst (objectEntries d))"
proof -
  assume d: "distinct (map fst d)"
  let ?S = "sort_key (\<lambda>e. digitsValue (fst e)) (filter (\<lambda>e. isArrayIndex (fst e)) d)"
  let ?R = "filter (\<lambda>e. \<not> isArrayIndex (fst e)) d"
  have "distinct (map fst ?S)"
    using d by (simp add: distinct_keys_sort_key distinct_map_filter)
  moreover have "distinct (map fst ?R)"
    using d by (simp add: distinct_map_filter)
  moreover have "fst ` set ?S \<inter> fst ` set ?R = {}"
    by auto
  ultimately show ?thesis
    unfolding objectEntries_def by (simp del: set_filter)
qed

lemma objectEntries_no_index:
  "\<forall>k \<in> fst ` set d. \<not> isArrayIndex k \<Longrightarrow> objectEntries d = d"
proof -
  assume a: "\<forall>k \<in> fst ` set d. \<not> isArrayIndex k"
  then have "filter (\<lambda>e. isArrayIndex (fst e)) d = []"
    by (auto simp: filter_empty_conv)
  moreover have "filter (\<lambda>e. \<not> isArrayIndex (fst e)) d = d"
    using a by (auto simp: filter_id_conv)
  ultimately show ?thesis by (simp add: objectEntries_def)
qed

lemma objectEntries_canonical:
  assumes "\<forall>e \<in> set xs. isArrayIndex (fst e)" and "sorted (map (\<lambda>e. digitsValue (fst e)) xs)"
    and "\<forall>e \<in> set ys. \<not> isArrayIndex (fst e)"
  shows "objectEntries (xs @ ys) = xs @ ys"
proof -
  have "filter (\<lambda>e. isArrayIndex (fst e)) (xs @ ys) = xs"
    using assms(1,3) by (auto simp: filter_id_conv filter_empty_conv)
  moreover have "filter (\<lambda>e. \<not> isArrayIndex (fst e)) (xs @ ys) = ys"
    using assms(1,3) by (auto simp: filter_id_conv filter_empty_conv)
  ultimately show ?thesis
    using assms(2) by (simp add: objectEntries_def sort_key_id_if_sorted)
qed

lemma map_filter_append: "List.map_filter f (xs @ ys) = List.map_filter f xs @ List.map_filter f ys"
  by (simp add: List.map_filter_def)

lemma map_filter_subset:
  "e \<in> set (List.map_filter (entryResult ex ds) ps) \<Longrightarrow> fst e \<in> fst ` set ps"
  using map_filter_keys [of ex ds ps] by auto

lemma map_filter_key_map:
  "map (\<lambda>e. g (fst e)) (List.map_filter (entryResult ex ds) ps) =
     map (\<lambda>e. g (fst e)) (filter (\<lambda>e. entryResult ex ds e \<noteq> None) ps)"
  by (induction ps) (auto split: option.splits if_splits)

lemma objectEntries_map_filter:
  "objectEntries (List.map_filter (entryResult ex ds) (objectEntries d))
     = List.map_filter (entryResult ex ds) (objectEntries d)"
proof -
  let ?S = "sort_key (\<lambda>e. digitsValue (fst e)) (filter (\<lambda>e. isArrayIndex (fst e)) d)"
  let ?R = "filter (\<lambda>e. \<not> isArrayIndex (fst e)) d"
  let ?f = "entryResult ex ds"
  have 1: "\<forall>e \<in> set (List.map_filter ?f ?S). isArrayIndex (fst e)"
  proof
    fix e assume "e \<in> set (List.map_filter ?f ?S)"
    then have "fst e \<in> fst ` set ?S" by (rule map_filter_subset)
    then show "isArrayIndex (fst e)" by auto
  qed
  have 3: "\<forall>e \<in> set (List.map_filter ?f ?R). \<not> isArrayIndex (fst e)"
  proof
    fix e assume "e \<in> set (List.map_filter ?f ?R)"
    then have "fst e \<in> fst ` set ?R" by (rule map_filter_subset)
    then show "\<not> isArrayIndex (fst e)" by auto
  qed
  have "sorted (map (\<lambda>e. digitsValue (fst e)) ?S)"
    by (rule sorted_sort_key)
  then have 2: "sorted (map (\<lambda>e. digitsValue (fst e)) (List.map_filter ?f ?S))"
    by (simp add: map_filter_key_map sorted_filter)
  have "objectEntries d = ?S @ ?R"
    by (simp add: objectEntries_def)
  then have "List.map_filter ?f (objectEntries d) = List.map_filter ?f ?S @ List.map_filter ?f ?R"
    by (simp only: map_filter_append)
  then show ?thesis
    using objectEntries_canonical [OF 1 2 3] by (simp only:)
qed

text \<open>The ranges of the numeric fields of the example, evaluated.\<close>

lemma example_ranges:
  "\<not> double_less (double_sub (round_double 20) (round_double 1)) (round_double 1)"
  "double_less (double_sub (round_double 0.8) (round_double 0)) (round_double 1)"
  by code_simp+

text \<open>The definitions to unfold when the extractor is evaluated on an example.\<close>

lemmas ex_defs = exampleSchema_def exampleDefs_def emptyProperty_def extractCustomSchemaFields_def
  extractFieldMetadata_def resolveRefEnum_def classifyType_def deriveStep_def pop_def
  HARDCODED_FIELDS_def

section \<open>Exclusion\<close>

text \<open>
  C1. For every configuration schema and every caller-supplied exclusion list, no key of
  the mapping returned by \<open>extractCustomSchemaFields\<close> is in the exclusion set, the
  built-in list joined with the caller's list. In particular the name \<open>height\<close> is never
  a key of the output, whatever its property declares, and passing \<^verbatim>\<open>["cfg_scale"]\<close> as
  extra exclusions removes \<open>cfg_scale\<close>, whatever its classification.
\<close>

theorem excluded_keys_absent:
  "fst ` set (extractCustomSchemaFields configSchema excludeFields)
      \<inter> (set HARDCODED_FIELDS \<union> set excludeFields) = {}
   \<and> ''height'' \<notin> fst ` set (extractCustomSchemaFields configSchema excludeFields)
   \<and> ''cfg_scale'' \<notin> fst ` set (extractCustomSchemaFields configSchema [''cfg_scale''])"
proof -
  have keys: "fst ` set (extractCustomSchemaFields cs ex) \<inter> (set HARDCODED_FIELDS \<union> set ex) = {}"
    for cs ex
    using collectFields_keys [of "HARDCODED_FIELDS @ ex" _ _ "[]"]
    by (auto simp: extractCustomSchemaFields_def split: option.splits)
  have h: "''height'' \<in> set HARDCODED_FIELDS"
    by (simp add: HARDCODED_FIELDS_def)
  show ?thesis using keys [of configSchema excludeFields] keys [of configSchema "[''cfg_scale'']"] h
    by auto
qed

theorem excluded_keys_absent_witness:
  "fst ` set (extractCustomSchemaFields (Some exampleSchema) [''cfg_scale''])
      \<inter> (set HARDCODED_FIELDS \<union> set [''cfg_scale'']) = {}
   \<and> ''height'' \<notin> fst ` set (extractCustomSchemaFields (Some exampleSchema) [''cfg_scale''])
   \<and> ''cfg_scale'' \<notin> fst ` set (extractCustomSchemaFields (Some exampleSchema) [''cfg_scale''])
   \<and> map fst (extractCustomSchemaFields (Some exampleSchema) [''cfg_scale''])
        = [''strength'', ''sampler'']
   \<and> map fst (extractCustomSchemaFields (Some exampleSchema) [])
        = [''cfg_scale'', ''strength'', ''sampler'']"
  using example_ranges excluded_keys_absent [of "Some exampleSchema" "[''cfg_scale'']"]
  by (simp add: ex_defs)

section \<open>Type classification\<close>

text \<open>
  C2. For a property that reference resolution does not classify, the declared type
  \<open>boolean\<close> gives a descriptor of type boolean, \<open>integer\<close> integer, \<open>number\<close> number,
  \<open>string\<close> with a non-empty inline enumeration enum (with that enumeration as
  \<open>enumValues\<close>), \<open>string\<close> without an enumeration string; every other declared type,
  an absent one too, gives no descriptor, and the property is not in the output.
\<close>

theorem type_classifier_cases:
  assumes "resolveRefEnum property ds = None"
  shows
   "(ptype property = Some ''boolean'' \<longrightarrow>
       (\<exists>d. extractFieldMetadata fieldName property ds = Some d \<and> ftype d = ''boolean''))
    \<and> (ptype property = Some ''integer'' \<longrightarrow>
       (\<exists>d. extractFieldMetadata fieldName property ds = Some d \<and> ftype d = ''integer''))
    \<and> (ptype property = Some ''number'' \<longrightarrow>
       (\<exists>d. extractFieldMetadata fieldName property ds = Some d \<and> ftype d = ''number''))
    \<and> (ptype property = Some ''string'' \<and> penum property = Some vs \<and> vs \<noteq> [] \<longrightarrow>
       (\<exists>d. extractFieldMetadata fieldName property ds = Some d \<and> ftype d = ''enum''
            \<and> enumValues d = Some vs))
    \<and> (ptype property = Some ''string'' \<and> penum property = None \<longrightarrow>
       (\<exists>d. extractFieldMetadata fieldName property ds = Some d \<and> ftype d = ''string''))
    \<and> (ptype property \<notin> {Some ''boolean'', Some ''integer'', Some ''number'', Some ''string''} \<longrightarrow>
       extractFieldMetadata fieldName property ds = None
       \<and> (properties cs = Some entries \<and> distinct (map fst entries)
            \<and> (fieldName, property) \<in> set entries \<and> defs cs = ds \<longrightarrow>
          fieldName \<notin> fst ` set (extractCustomSchemaFields (Some cs) excludeFields)))"
proof -
  have none: "extractFieldMetadata fieldName property ds = None"
    if "ptype property \<notin> {Some ''boolean'', Some ''integer'', Some ''number'', Some ''string''}"
    using that assms by (auto simp: extractFieldMetadata_def classifyType_def split: option.splits)
  have absent: "fieldName \<notin> fst ` set (extractCustomSchemaFields (Some cs) excludeFields)"
    if "ptype property \<notin> {Some ''boolean'', Some ''integer'', Some ''number'', Some ''string''}"
      and "properties cs = Some entries" "distinct (map fst entries)"
      "(fieldName, property) \<in> set entries" "defs cs = ds"
    using that none extract_absent [of cs entries fieldName property excludeFields] by simp
  have supported: "(ptype property = Some ''boolean'' \<longrightarrow>
       (\<exists>d. extractFieldMetadata fieldName property ds = Some d \<and> ftype d = ''boolean''))
    \<and> (ptype property = Some ''integer'' \<longrightarrow>
       (\<exists>d. extractFieldMetadata fieldName property ds = Some d \<and> ftype d = ''integer''))
    \<and> (ptype property = Some ''number'' \<longrightarrow>
       (\<exists>d. extractFieldMetadata fieldName property ds = Some d \<and> ftype d = ''number''))
    \<and> (ptype property = Some ''string'' \<and> penum property = Some vs \<and> vs \<noteq> [] \<longrightarrow>
       (\<exists>d. extractFieldMetadata fieldName property ds = Some d \<and> ftype d = ''enum''
            \<and> enumValues d = Some vs))
    \<and> (ptype property = Some ''string'' \<and> penum property = None \<longrightarrow>
       (\<exists>d. extractFieldMetadata fieldName property ds = Some d \<and> ftype d = ''string''))"
    using assms by (simp add: extractFieldMetadata_def classifyType_def)
  show ?thesis using supported none absent by blast
qed

theorem type_classifier_cases_witness:
  "resolveRefEnum (emptyProperty\<lparr>ptype := Some ''string'', penum := Some [JStr ''fast'', JStr ''slow'']\<rparr>) None = None
   \<and> (\<exists>d. extractFieldMetadata ''mode''
             (emptyProperty\<lparr>ptype := Some ''string'', penum := Some [JStr ''fast'', JStr ''slow'']\<rparr>)
             None = Some d
          \<and> ftype d = ''enum'' \<and> enumValues d = Some [JStr ''fast'', JStr ''slow''])
   \<and> (\<exists>d. extractFieldMetadata ''prompt'' (emptyProperty\<lparr>ptype := Some ''string''\<rparr>) None = Some d
          \<and> ftype d = ''string'')
   \<and> (\<exists>d. extractFieldMetadata ''use_cache'' (emptyProperty\<lparr>ptype := Some ''boolean''\<rparr>) None = Some d
          \<and> ftype d = ''boolean'')
   \<and> resolveRefEnum (emptyProperty\<lparr>ptype := Some ''array''\<rparr>) (defs exampleSchema) = None
   \<and> (''tags'', emptyProperty\<lparr>ptype := Some ''array''\<rparr>) \<in> set (the (properties exampleSchema))
   \<and> extractFieldMetadata ''tags'' (emptyProperty\<lparr>ptype := Some ''array''\<rparr>) (defs exampleSchema) = None
   \<and> ''tags'' \<notin> fst ` set (extractCustomSchemaFields (Some exampleSchema) [])"
  using example_ranges
    type_classifier_cases [where property = "emptyProperty\<lparr>ptype := Some ''string'', penum := Some [JStr ''fast'', JStr ''slow'']\<rparr>"
      and ds = None and fieldName = "''mode''" and vs = "[JStr ''fast'', JStr ''slow'']"]
    type_classifier_cases [where property = "emptyProperty\<lparr>ptype := Some ''string''\<rparr>"
      and ds = None and fieldName = "''prompt''"]
    type_classifier_cases [where property = "emptyProperty\<lparr>ptype := Some ''boolean''\<rparr>"
      and ds = None and fieldName = "''use_cache''"]
    type_classifier_cases [where property = "emptyProperty\<lparr>ptype := Some ''array''\<rparr>"
      and ds = "defs exampleSchema" and fieldName = "''tags''" and cs = exampleSchema
      and entries = "the (properties exampleSchema)" and excludeFields = "[]"]
  by (simp add: ex_defs)

section \<open>Step derivation\<close>

text \<open>
  C3, amended. The derived step is 1 for the type integer, whatever the bounds; for the
  type number it is 0.01 when both bounds are defined and the difference
  maximum - minimum, computed in IEEE 754 double precision (rounded to nearest, ties to
  even), is less than 1, and 0.1 otherwise, also when a bound is undefined; it is undefined
  for every other type. For finite bounds the rounded difference is less than 1 whenever
  the exact difference is at most \<open>1 - 2 ^ -53\<close>, and is not whenever the exact difference
  is at least 1. The step of every descriptor is the one derived from its type and the
  property's bounds.
\<close>

theorem derived_step:
  "deriveStep ''integer'' minimum maximum = Some (round_double 1)
   \<and> deriveStep ''number'' (Some lo) (Some hi) =
        (if double_less (double_sub hi lo) (round_double 1) then Some (round_double 0.01)
         else Some (round_double 0.1))
   \<and> deriveStep ''number'' None maximum = Some (round_double 0.1)
   \<and> deriveStep ''number'' minimum None = Some (round_double 0.1)
   \<and> (t \<noteq> ''integer'' \<and> t \<noteq> ''number'' \<longrightarrow> deriveStep t minimum maximum = None)
   \<and> (y - x \<le> 1 - 1 / 2 ^ 53 \<longrightarrow>
        deriveStep ''number'' (Some (Finite x)) (Some (Finite y)) = Some (round_double 0.01))
   \<and> (1 \<le> y - x \<longrightarrow>
        deriveStep ''number'' (Some (Finite x)) (Some (Finite y)) = Some (round_double 0.1))
   \<and> (extractFieldMetadata fieldName property ds = Some d \<longrightarrow>
        step d = deriveStep (ftype d) (pminimum property) (pmaximum property))"
proof -
  have carried: "step d = deriveStep (ftype d) (pminimum property) (pmaximum property)"
    if "extractFieldMetadata fieldName property ds = Some d"
    using that by (auto simp: extractFieldMetadata_def deriveStep_def split: option.splits)
  have narrow: "deriveStep ''number'' (Some (Finite x)) (Some (Finite y)) = Some (round_double 0.01)"
    if "y - x \<le> 1 - 1 / 2 ^ 53"
    using round_double_less_one [OF that] by (simp add: deriveStep_def round_double_one)
  have wide: "deriveStep ''number'' (Some (Finite x)) (Some (Finite y)) = Some (round_double 0.1)"
    if "1 \<le> y - x"
    using round_double_ge_one [OF that] by (simp add: deriveStep_def round_double_one)
  have cases: "deriveStep ''integer'' minimum maximum = Some (round_double 1)
   \<and> deriveStep ''number'' (Some lo) (Some hi) =
        (if double_less (double_sub hi lo) (round_double 1) then Some (round_double 0.01)
         else Some (round_double 0.1))
   \<and> deriveStep ''number'' None maximum = Some (round_double 0.1)
   \<and> deriveStep ''number'' minimum None = Some (round_double 0.1)
   \<and> (t \<noteq> ''integer'' \<and> t \<noteq> ''number'' \<longrightarrow> deriveStep t minimum maximum = None)"
    by (simp add: deriveStep_def split: option.splits)
  show ?thesis using cases narrow wide carried by blast
qed

theorem derived_step_witness:
  "deriveStep ''integer'' (Some (round_double 0)) (Some (round_double 0.5)) = Some (round_double 1)
   \<and> double_sub (round_double 0.8) (round_double 0) = round_double 0.8
   \<and> deriveStep ''number'' (Some (round_double 0)) (Some (round_double 0.8))
        = Some (round_double 0.01)
   \<and> double_sub (round_double 20) (round_double 1) = round_double 19
   \<and> deriveStep ''number'' (Some (round_double 1)) (Some (round_double 20))
        = Some (round_double 0.1)
   \<and> double_sub (round_double 1.2) (round_double 0.2) = round_double 1
   \<and> deriveStep ''number'' (Some (round_double 0.2)) (Some (round_double 1.2))
        = Some (round_double 0.1)
   \<and> deriveStep ''number'' (Some NaN) (Some (round_double 20)) = Some (round_double 0.1)
   \<and> deriveStep ''number'' (Some PosInf) (Some PosInf) = Some (round_double 0.1)
   \<and> deriveStep ''number'' (Some (round_double 0)) (Some NegInf) = Some (round_double 0.01)
   \<and> deriveStep ''number'' None (Some (round_double 0.5)) = Some (round_double 0.1)
   \<and> deriveStep ''number'' (Some (round_double 0)) None = Some (round_double 0.1)
   \<and> deriveStep ''enum'' (Some (round_double 0)) (Some (round_double 0.5)) = None
   \<and> ((1::rat) / 2 - 0 \<le> 1 - 1 / 2 ^ 53
        \<and> deriveStep ''number'' (Some (Finite 0)) (Some (Finite (1 / 2))) = Some (round_double 0.01))
   \<and> ((1::rat) \<le> 20 - 1
        \<and> deriveStep ''number'' (Some (Finite 1)) (Some (Finite 20)) = Some (round_double 0.1))
   \<and> map_option step (extractFieldMetadata ''strength''
        (emptyProperty\<lparr>ptype := Some ''number'', pminimum := Some (round_double 0),
           pmaximum := Some (round_double 0.8)\<rparr>) None)
        = Some (Some (round_double 0.01))"
proof -
  have narrow: "double_sub (round_double 0.8) (round_double 0) = round_double 0.8"
    and narrow_less: "double_less (round_double 0.8) (round_double 1)"
    and wide: "double_sub (round_double 20) (round_double 1) = round_double 19"
    and wide_less: "\<not> double_less (round_double 19) (round_double 1)"
    and tie: "double_sub (round_double 1.2) (round_double 0.2) = round_double 1"
    and tie_less: "\<not> double_less (round_double 1) (round_double 1)"
    and nan: "double_sub (round_double 20) NaN = NaN"
    and inf: "double_sub NegInf (round_double 0) = NegInf"
    and inf_less: "double_less NegInf (round_double 1)"
    by code_simp+
  have half: "(1::rat) / 2 - 0 \<le> 1 - 1 / 2 ^ 53" and nineteen: "(1::rat) \<le> 20 - 1"
    by simp_all
  note at_strength = derived_step [where minimum = "Some (round_double 0)"
      and maximum = "Some (round_double 0.5)" and t = "''enum''"
      and fieldName = "''strength''" and ds = None
      and property = "emptyProperty\<lparr>ptype := Some ''number'',
        pminimum := Some (round_double 0), pmaximum := Some (round_double 0.8)\<rparr>"
      and d = "\<lparr>name = ''strength'', ftype = ''number'', fdefault = None,
        fdescription = None, fminimum = Some (round_double 0),
        fmaximum = Some (round_double 0.8), enumValues = None,
        step = deriveStep ''number'' (Some (round_double 0)) (Some (round_double 0.8))\<rparr>"]
  show ?thesis
    using narrow narrow_less wide wide_less tie tie_less nan inf inf_less half nineteen
      at_strength [where lo = "round_double 0" and hi = "round_double 0.8" and x = 0 and y = "1 / 2"]
      at_strength [where lo = "round_double 1" and hi = "round_double 20" and x = 1 and y = 20]
      at_strength [where lo = "round_double 0.2" and hi = "round_double 1.2" and x = 0 and y = "1 / 2"]
      at_strength [where lo = NaN and hi = "round_double 20" and x = 0 and y = "1 / 2"]
      at_strength [where lo = PosInf and hi = PosInf and x = 0 and y = "1 / 2"]
      at_strength [where lo = "round_double 0" and hi = NegInf and x = 0 and y = "1 / 2"]
    by (simp add: extractFieldMetadata_def resolveRefEnum_def classifyType_def emptyProperty_def)
qed

text \<open>
  C3 as first stated, with the difference and the comparison of exact numbers, fails. The
  bounds 0.4 and 1.4 of a JSON document differ by exactly 1, which is not less than 1, and
  the step is 0.01: the doubles nearest to them differ by less than 1. The doubles 1e-17
  and 1 differ by less than 1 and the step is 0.1: the difference rounds to 1.
\<close>

theorem rounded_range_counterexample:
  "\<not> (1.4 - 0.4 < (1::rat))
   \<and> deriveStep ''number'' (Some (round_double 0.4)) (Some (round_double 1.4))
        = Some (round_double 0.01)
   \<and> round_double (1 / 10 ^ 17) = Finite (6490371073168535 / 2 ^ 109)
   \<and> round_double 1 = Finite 1
   \<and> 1 - 6490371073168535 / 2 ^ 109 < (1::rat)
   \<and> deriveStep ''number'' (Some (round_double (1 / 10 ^ 17))) (Some (round_double 1))
        = Some (round_double 0.1)
   \<and> round_double 0.01 \<noteq> round_double 0.1"
proof -
  have "double_less (double_sub (round_double 1.4) (round_double 0.4)) (round_double 1)"
    and "\<not> double_less (double_sub (round_double 1) (round_double (1 / 10 ^ 17))) (round_double 1)"
    and "round_double (1 / 10 ^ 17) = Finite (6490371073168535 / 2 ^ 109)"
    and "round_double 1 = Finite 1"
    and "round_double 0.01 \<noteq> round_double 0.1"
    by code_simp+
  then show ?thesis by (simp add: deriveStep_def)
qed

section \<open>Reference resolution\<close>

text \<open>
  C4, amended. For every non-excluded property that declares a non-empty reference whose
  trailing path segment is found in the definitions table, where that definition carries a
  non-empty enumeration, the output descriptor has type enum, \<open>enumValues\<close> equal to the
  definition's enumeration in the same order, and default and description copied from the
  property.
\<close>

theorem reference_enum_descriptor:
  assumes "properties cs = Some entries" and "distinct (map fst entries)"
    and "(fieldName, property) \<in> set entries"
    and "fieldName \<notin> set HARDCODED_FIELDS \<union> set excludeFields"
    and "pref property = Some refPath" and "refPath \<noteq> []"
    and "defs cs = Some table" and "table (trailing_segment refPath) = Some defn"
    and "denum defn = Some vs" and "vs \<noteq> []"
  shows "map_of (extractCustomSchemaFields (Some cs) excludeFields) fieldName =
           Some \<lparr>name = fieldName, ftype = ''enum'', fdefault = pdefault property,
                 fdescription = pdescription property, fminimum = None, fmaximum = None,
                 enumValues = Some vs, step = None\<rparr>"
proof -
  have "resolveRefEnum property (defs cs) = Some vs"
    using assms resolveRefEnum_Some_iff [of property "defs cs" vs] by blast
  then have "extractFieldMetadata fieldName property (defs cs) =
      Some \<lparr>name = fieldName, ftype = ''enum'', fdefault = pdefault property,
            fdescription = pdescription property, fminimum = None, fmaximum = None,
            enumValues = Some vs, step = None\<rparr>"
    by (simp add: extractFieldMetadata_def)
  then show ?thesis
    using extract_lookup [OF assms(1,2,3), of excludeFields] assms(4) by simp
qed

theorem reference_enum_descriptor_witness:
  "(''sampler'', emptyProperty\<lparr>pref := Some ''#/$defs/Sampler'', pdefault := Some (JStr ''euler''),
       pdescription := Some ''Sampling method'', pminimum := Some (round_double 0), pmaximum := Some (round_double 10)\<rparr>)
     \<in> set (the (properties exampleSchema))
   \<and> distinct (map fst (the (properties exampleSchema)))
   \<and> ''sampler'' \<notin> set HARDCODED_FIELDS \<union> set [''cfg_scale'']
   \<and> trailing_segment ''#/$defs/Sampler'' = ''Sampler''
   \<and> defs exampleSchema = Some exampleDefs
   \<and> exampleDefs ''Sampler'' = Some \<lparr>denum = Some [JStr ''euler'', JStr ''dpm++'']\<rparr>
   \<and> map_of (extractCustomSchemaFields (Some exampleSchema) [''cfg_scale'']) ''sampler'' =
        Some \<lparr>name = ''sampler'', ftype = ''enum'', fdefault = Some (JStr ''euler''),
              fdescription = Some ''Sampling method'', fminimum = None, fmaximum = None,
              enumValues = Some [JStr ''euler'', JStr ''dpm++''], step = None\<rparr>"
  using example_ranges reference_enum_descriptor [where cs = exampleSchema
      and entries = "the (properties exampleSchema)" and fieldName = "''sampler''"
      and property = "emptyProperty\<lparr>pref := Some ''#/$defs/Sampler'',
        pdefault := Some (JStr ''euler''), pdescription := Some ''Sampling method'',
        pminimum := Some (round_double 0), pmaximum := Some (round_double 10)\<rparr>"
      and excludeFields = "[''cfg_scale'']" and refPath = "''#/$defs/Sampler''"
      and table = exampleDefs and defn = "\<lparr>denum = Some [JStr ''euler'', JStr ''dpm++'']\<rparr>"
      and vs = "[JStr ''euler'', JStr ''dpm++'']"]
  by (simp add: ex_defs trailing_segment_def)

text \<open>
  C4 as first stated, for every declared reference, fails for the empty reference: the
  guard \<^verbatim>\<open>property.$ref && defs\<close> takes the empty string for a missing reference, so the
  definition under the empty name is never looked up and the property is dropped.
\<close>

theorem empty_reference_counterexample:
  "properties emptyRefSchema = Some [(''sampler'', emptyProperty\<lparr>pref := Some ''''\<rparr>)]
   \<and> ''sampler'' \<notin> set HARDCODED_FIELDS
   \<and> pref (emptyProperty\<lparr>pref := Some ''''\<rparr>) = Some ''''
   \<and> trailing_segment '''' = ''''
   \<and> map_option (\<lambda>table. map_option denum (table (trailing_segment ''''))) (defs emptyRefSchema)
        = Some (Some (Some [JStr ''euler'', JStr ''dpm++'']))
   \<and> map_of (extractCustomSchemaFields (Some emptyRefSchema) []) ''sampler'' = None
   \<and> extractCustomSchemaFields (Some emptyRefSchema) [] = []"
  by (simp add: emptyRefSchema_def trailing_segment_def ex_defs)

section \<open>Enumeration values\<close>

text \<open>
  C5, amended. In every descriptor produced by extraction: a descriptor of type enum has
  \<open>enumValues\<close> present, the enumeration of the resolved definition or the inline
  enumeration of the property, which may be empty; a descriptor of type string has no
  \<open>enumValues\<close>; a descriptor of type boolean, integer or number carries the property's
  inline enumeration unchanged, absent exactly when the property declares none.
\<close>

theorem enum_values_by_type:
  "(extractFieldMetadata fieldName property ds = Some d \<longrightarrow>
      (ftype d = ''enum'' \<longrightarrow>
         enumValues d \<noteq> None
         \<and> (enumValues d = resolveRefEnum property ds \<or> enumValues d = penum property))
      \<and> (ftype d = ''string'' \<longrightarrow> enumValues d = None)
      \<and> (ftype d \<in> {''boolean'', ''integer'', ''number''} \<longrightarrow> enumValues d = penum property))
   \<and> (properties cs = Some entries
        \<and> (k, m) \<in> set (extractCustomSchemaFields (Some cs) excludeFields) \<longrightarrow>
      (\<exists>p. (k, p) \<in> set entries
         \<and> (ftype m = ''enum'' \<longrightarrow>
              enumValues m \<noteq> None
              \<and> (enumValues m = resolveRefEnum p (defs cs) \<or> enumValues m = penum p))
         \<and> (ftype m = ''string'' \<longrightarrow> enumValues m = None)
         \<and> (ftype m \<in> {''boolean'', ''integer'', ''number''} \<longrightarrow> enumValues m = penum p)))"
proof -
  have one: "(ftype d = ''enum'' \<longrightarrow>
         enumValues d \<noteq> None
         \<and> (enumValues d = resolveRefEnum property ds \<or> enumValues d = penum property))
      \<and> (ftype d = ''string'' \<longrightarrow> enumValues d = None)
      \<and> (ftype d \<in> {''boolean'', ''integer'', ''number''} \<longrightarrow> enumValues d = penum property)"
    if "extractFieldMetadata fieldName property ds = Some d" for fieldName property ds d
    using that
    by (auto simp: extractFieldMetadata_def classifyType_def split: option.splits if_splits)
  have two: "\<exists>p. (k, p) \<in> set entries
         \<and> (ftype m = ''enum'' \<longrightarrow>
              enumValues m \<noteq> None
              \<and> (enumValues m = resolveRefEnum p (defs cs) \<or> enumValues m = penum p))
         \<and> (ftype m = ''string'' \<longrightarrow> enumValues m = None)
         \<and> (ftype m \<in> {''boolean'', ''integer'', ''number''} \<longrightarrow> enumValues m = penum p)"
    if ps: "properties cs = Some entries"
      and km: "(k, m) \<in> set (extractCustomSchemaFields (Some cs) excludeFields)"
  proof -
    obtain p where p: "(k, p) \<in> set entries" "extractFieldMetadata k p (defs cs) = Some m"
      using extract_mem [OF ps km] by blast
    show ?thesis using p(1) one [OF p(2)] by blast
  qed
  show ?thesis using one [of fieldName property ds d] two by blast
qed

theorem enum_values_by_type_witness:
  "extractFieldMetadata ''level''
      (emptyProperty\<lparr>ptype := Some ''integer'', penum := Some [JNum (round_double 1), JNum (round_double 2), JNum (round_double 3)]\<rparr>) None
     = Some \<lparr>name = ''level'', ftype = ''integer'', fdefault = None, fdescription = None,
          fminimum = None, fmaximum = None, enumValues = Some [JNum (round_double 1), JNum (round_double 2), JNum (round_double 3)],
          step = Some (round_double 1)\<rparr>
   \<and> properties inlineEnumSchema = Some
        [(''level'', emptyProperty\<lparr>ptype := Some ''integer'',
             penum := Some [JNum (round_double 1), JNum (round_double 2), JNum (round_double 3)]\<rparr>),
         (''choice'', emptyProperty\<lparr>ptype := Some ''string'', penum := Some []\<rparr>)]
   \<and> (''choice'', \<lparr>name = ''choice'', ftype = ''enum'', fdefault = None, fdescription = None,
          fminimum = None, fmaximum = None, enumValues = Some [], step = None\<rparr>)
       \<in> set (extractCustomSchemaFields (Some inlineEnumSchema) [])
   \<and> (\<exists>p. (''choice'', p) \<in> set (the (properties inlineEnumSchema))
          \<and> Some [] = penum p)"
  using enum_values_by_type [where fieldName = "''level''" and ds = None
      and property = "emptyProperty\<lparr>ptype := Some ''integer'', penum := Some [JNum (round_double 1), JNum (round_double 2), JNum (round_double 3)]\<rparr>"
      and d = "\<lparr>name = ''level'', ftype = ''integer'', fdefault = None, fdescription = None,
          fminimum = None, fmaximum = None, enumValues = Some [JNum (round_double 1), JNum (round_double 2), JNum (round_double 3)],
          step = Some (round_double 1)\<rparr>"
      and cs = inlineEnumSchema and entries = "the (properties inlineEnumSchema)"
      and excludeFields = "[]" and k = "''choice''"
      and m = "\<lparr>name = ''choice'', ftype = ''enum'', fdefault = None, fdescription = None,
          fminimum = None, fmaximum = None, enumValues = Some [], step = None\<rparr>"]
  by (simp add: inlineEnumSchema_def ex_defs)

text \<open>
  C5 as first stated fails twice on one schema: an integer property with an inline
  enumeration keeps it in \<open>enumValues\<close>, and a string property with an empty inline
  enumeration becomes an enum descriptor whose \<open>enumValues\<close> is empty.
\<close>

theorem inline_enum_counterexample:
  "extractCustomSchemaFields (Some inlineEnumSchema) [] =
     [(''level'', \<lparr>name = ''level'', ftype = ''integer'', fdefault = None, fdescription = None,
          fminimum = None, fmaximum = None, enumValues = Some [JNum (round_double 1), JNum (round_double 2), JNum (round_double 3)],
          step = Some (round_double 1)\<rparr>),
      (''choice'', \<lparr>name = ''choice'', ftype = ''enum'', fdefault = None, fdescription = None,
          fminimum = None, fmaximum = None, enumValues = Some [], step = None\<rparr>)]"
  by (simp add: inlineEnumSchema_def ex_defs)

section \<open>Failure paths\<close>

text \<open>
  C6, amended. For every input of the declared types (each property value an object whose
  \<^verbatim>\<open>$ref\<close>, when present, is a string; the exclusion list an array of strings, or omitted),
  \<open>extractCustomSchemaFields\<close> never raises: the run-time translation returns the mapping
  of the typed one. Every failure path ends in an omission. A missing schema or a missing
  property map gives the empty mapping; otherwise the result is exactly the contributions
  of the entries, in order; and a property with an unsupported or absent declared type
  whose reference is absent, empty, without a definitions table, unresolved, or resolved
  to a definition without an enumeration has no descriptor and is not in the output.
\<close>

theorem well_typed_never_raises:
  "extractCustomSchemaFieldsRt (map_option runtimeSchema configSchema)
       (Some (JArr (map JStr excludeFields)))
     = Inr (extractCustomSchemaFields configSchema excludeFields)
   \<and> extractCustomSchemaFieldsRt (map_option runtimeSchema configSchema) None
     = Inr (extractCustomSchemaFields configSchema [])
   \<and> extractCustomSchemaFields None excludeFields = []
   \<and> (properties cs = None \<longrightarrow> extractCustomSchemaFields (Some cs) excludeFields = [])
   \<and> (properties cs = Some entries \<and> distinct (map fst entries) \<longrightarrow>
        extractCustomSchemaFields (Some cs) excludeFields =
          List.map_filter (entryResult (HARDCODED_FIELDS @ excludeFields) (defs cs)) entries)
   \<and> (properties cs = Some entries \<and> distinct (map fst entries)
        \<and> (fieldName, property) \<in> set entries
        \<and> ptype property \<notin> {Some ''boolean'', Some ''integer'', Some ''number'', Some ''string''}
        \<and> (pref property = None \<or> pref property = Some [] \<or> defs cs = None
            \<or> (\<exists>refPath table. pref property = Some refPath \<and> defs cs = Some table
                  \<and> (table (trailing_segment refPath) = None
                      \<or> (\<exists>defn. table (trailing_segment refPath) = Some defn
                            \<and> denum defn = None)))) \<longrightarrow>
        extractFieldMetadata fieldName property (defs cs) = None
        \<and> fieldName \<notin> fst ` set (extractCustomSchemaFields (Some cs) excludeFields))"
proof -
  have none: "extractFieldMetadata fieldName property (defs cs) = None"
    if "ptype property \<notin> {Some ''boolean'', Some ''integer'', Some ''number'', Some ''string''}"
      and "pref property = None \<or> pref property = Some [] \<or> defs cs = None
            \<or> (\<exists>refPath table. pref property = Some refPath \<and> defs cs = Some table
                  \<and> (table (trailing_segment refPath) = None
                      \<or> (\<exists>defn. table (trailing_segment refPath) = Some defn
                            \<and> denum defn = None)))"
  proof -
    have "resolveRefEnum property (defs cs) = None"
    proof (cases "resolveRefEnum property (defs cs)")
      case None
      then show ?thesis .
    next
      case (Some vs)
      then show ?thesis
        using that(2) resolveRefEnum_Some_iff [of property "defs cs" vs] by auto
    qed
    then show ?thesis using that(1)
      by (auto simp: extractFieldMetadata_def classifyType_def split: option.splits)
  qed
  have absent: "fieldName \<notin> fst ` set (extractCustomSchemaFields (Some cs) excludeFields)"
    if "properties cs = Some entries" "distinct (map fst entries)"
      "(fieldName, property) \<in> set entries"
      "extractFieldMetadata fieldName property (defs cs) = None"
    using that by (rule extract_absent)
  have shape: "extractCustomSchemaFields (Some cs) excludeFields =
          List.map_filter (entryResult (HARDCODED_FIELDS @ excludeFields) (defs cs)) entries"
    if "properties cs = Some entries" "distinct (map fst entries)"
    using that by (rule extract_eq_map_filter)
  have early: "extractCustomSchemaFields None excludeFields = []
     \<and> (properties cs = None \<longrightarrow> extractCustomSchemaFields (Some cs) excludeFields = [])"
    by (simp add: extractCustomSchemaFields_def)
  have returns: "extractCustomSchemaFieldsRt (map_option runtimeSchema configSchema)
       (Some (JArr (map JStr excludeFields)))
     = Inr (extractCustomSchemaFields configSchema excludeFields)
   \<and> extractCustomSchemaFieldsRt (map_option runtimeSchema configSchema) None
     = Inr (extractCustomSchemaFields configSchema [])"
    by (simp only: extractRt_typed extractRt_typed_omitted)
  show ?thesis using returns early shape none absent by blast
qed

theorem well_typed_never_raises_witness:
  "map_sum id (map fst)
       (extractCustomSchemaFieldsRt (Some (runtimeSchema exampleSchema))
          (Some (JArr [JStr ''cfg_scale''])))
     = Inr [''strength'', ''sampler'']
   \<and> extractCustomSchemaFieldsRt None None = Inr []
   \<and> distinct (map fst (the (properties exampleSchema)))
   \<and> (''tags'', emptyProperty\<lparr>ptype := Some ''array''\<rparr>) \<in> set (the (properties exampleSchema))
   \<and> pref (emptyProperty\<lparr>ptype := Some ''array''\<rparr>) = None
   \<and> extractFieldMetadata ''tags'' (emptyProperty\<lparr>ptype := Some ''array''\<rparr>) (defs exampleSchema) = None
   \<and> ''tags'' \<notin> fst ` set (extractCustomSchemaFields (Some exampleSchema) [''cfg_scale''])
   \<and> map fst (extractCustomSchemaFields (Some exampleSchema) [''cfg_scale''])
        = [''strength'', ''sampler'']"
  using example_ranges
    well_typed_never_raises [where excludeFields = "[''cfg_scale'']" and cs = exampleSchema
      and configSchema = "Some exampleSchema"
      and entries = "the (properties exampleSchema)" and fieldName = "''tags''"
      and property = "emptyProperty\<lparr>ptype := Some ''array''\<rparr>"]
    well_typed_never_raises [where configSchema = None]
  by (simp add: ex_defs)

text \<open>
  C6 as first stated, for any input, fails on run-time values outside the declared types:
  a property that is \<^verbatim>\<open>null\<close>, a \<^verbatim>\<open>$ref\<close> that is the number 5 beside a definitions table,
  and an exclusion list that is \<^verbatim>\<open>null\<close> each raise a \<^verbatim>\<open>TypeError\<close>.
\<close>

theorem raises_counterexample:
  "extractCustomSchemaFieldsRt
       (Some \<lparr>rproperties = Some [(''strength'', Nullish)], rdefs = None\<rparr>) None
     = Inl TypeError
   \<and> extractCustomSchemaFieldsRt
       (Some \<lparr>rproperties = Some [(''sampler'', Members (Some (JNum (round_double 5))) emptyProperty)],
              rdefs = Some exampleDefs\<rparr>) None
     = Inl TypeError
   \<and> extractCustomSchemaFieldsRt (Some (runtimeSchema exampleSchema)) (Some JNull)
     = Inl TypeError"
proof -
  have "round_double 5 = Finite 5" by code_simp
  then show ?thesis
    by (simp add: extractCustomSchemaFieldsRt_def extractFieldMetadataRt_def resolveRefEnumRt_def
        runtimeSchema_def exampleSchema_def HARDCODED_FIELDS_def)
qed

section \<open>Missing schema\<close>

text \<open>
  C7. If the schema argument is absent, or its property map is absent or declares no
  properties, \<open>extractCustomSchemaFields\<close> returns the empty mapping, for every exclusion
  list.
\<close>

theorem empty_schema_empty_output:
  "extractCustomSchemaFields None excludeFields = []
   \<and> (properties cs = None \<longrightarrow> extractCustomSchemaFields (Some cs) excludeFields = [])
   \<and> (properties cs = Some [] \<longrightarrow> extractCustomSchemaFields (Some cs) excludeFields = [])"
  by (simp add: extractCustomSchemaFields_def)

theorem empty_schema_empty_output_witness:
  "extractCustomSchemaFields None [''cfg_scale''] = []
   \<and> properties \<lparr>properties = None, defs = None\<rparr> = None
   \<and> extractCustomSchemaFields (Some \<lparr>properties = None, defs = None\<rparr>) [''cfg_scale''] = []
   \<and> properties \<lparr>properties = Some [], defs = None\<rparr> = Some []
   \<and> extractCustomSchemaFields (Some \<lparr>properties = Some [], defs = None\<rparr>) [''cfg_scale''] = []"
  using empty_schema_empty_output [of "[''cfg_scale'']" "\<lparr>properties = None, defs = None\<rparr>"]
    empty_schema_empty_output [of "[''cfg_scale'']" "\<lparr>properties = Some [], defs = None\<rparr>"]
  by simp

section \<open>Determinism and order\<close>

text \<open>
  C8, amended. Extraction is deterministic: two invocations, the second in the state that
  the first has left, on structurally equal schemas and exclusion lists (the same objects
  or copies) return two distinct objects that are structurally equal, and leave the built-in
  list and every object of the heap as they were. The output is exactly the contributions
  of the schema's properties in their enumeration order, and is enumerated in that order:
  the names that are array indices first, in ascending numeric order, then the other names
  in declared order. When no property name is an array index, this is the declared order.
\<close>

theorem two_invocations_equal_ordered:
  "(schemaAt st a = Some c \<and> schemaAt st a' = Some c
      \<and> namesAt st e = Some ex \<and> namesAt st e' = Some ex \<longrightarrow>
      (\<exists>r st1 r' st2.
          invoke st a e = Some (r, st1)
        \<and> invoke st1 a' e' = Some (r', st2)
        \<and> r \<noteq> r' \<and> deref st2 r = deref st2 r'
        \<and> (hardcodedFields st = HARDCODED_FIELDS \<longrightarrow>
             deref st2 r = Some (FieldsValue (extractCustomSchemaFields c ex)))
        \<and> hardcodedFields st2 = hardcodedFields st
        \<and> (\<forall>x. deref st x \<noteq> None \<longrightarrow> deref st2 x = deref st x)))
   \<and> (distinct (map fst declared) \<and> properties cs = Some (objectEntries declared) \<longrightarrow>
        extractCustomSchemaFields (Some cs) ex =
          List.map_filter (entryResult (HARDCODED_FIELDS @ ex) (defs cs)) (objectEntries declared)
        \<and> objectEntries (extractCustomSchemaFields (Some cs) ex)
            = extractCustomSchemaFields (Some cs) ex
        \<and> map fst (extractCustomSchemaFields (Some cs) ex) =
            filter (\<lambda>k. k \<in> fst ` set (extractCustomSchemaFields (Some cs) ex))
              (map fst (objectEntries declared)))
   \<and> ((\<forall>k \<in> fst ` set declared. \<not> isArrayIndex k) \<longrightarrow> objectEntries declared = declared)"
proof -
  have twice: "\<exists>r st1 r' st2.
          invoke st a e = Some (r, st1)
        \<and> invoke st1 a' e' = Some (r', st2)
        \<and> r \<noteq> r' \<and> deref st2 r = deref st2 r'
        \<and> (hardcodedFields st = HARDCODED_FIELDS \<longrightarrow>
             deref st2 r = Some (FieldsValue (extractCustomSchemaFields c ex)))
        \<and> hardcodedFields st2 = hardcodedFields st
        \<and> (\<forall>x. deref st x \<noteq> None \<longrightarrow> deref st2 x = deref st x)"
    if a: "schemaAt st a = Some c" and a': "schemaAt st a' = Some c"
      and e: "namesAt st e = Some ex" and e': "namesAt st e' = Some ex"
  proof -
    define out where "out =
      (case c of None \<Rightarrow> []
       | Some cs \<Rightarrow>
           (case properties cs of None \<Rightarrow> []
            | Some entries \<Rightarrow> collectFields (hardcodedFields st @ ex) (defs cs) entries []))"
    define r where "r = length (heap st)"
    define st1 where "st1 = st\<lparr>heap := heap st @ [FieldsValue out]\<rparr>"
    define r' where "r' = length (heap st1)"
    define st2 where "st2 = st1\<lparr>heap := heap st1 @ [FieldsValue out]\<rparr>"
    have first: "invoke st a e = Some (r, st1)"
      using invoke_resolved [OF a e] by (simp add: allocate_def out_def r_def st1_def)
    have hf: "hardcodedFields st1 = hardcodedFields st"
      by (simp add: st1_def)
    have a1: "schemaAt st1 a' = Some c"
      using schemaAt_kept [of st a' "FieldsValue out"] a' by (simp add: st1_def)
    have e1: "namesAt st1 e' = Some ex"
      using namesAt_kept [of st e' "FieldsValue out"] e' by (simp add: st1_def)
    have "invoke st1 a' e' = Some (allocate st1 (FieldsValue out))"
      using invoke_resolved [OF a1 e1] unfolding hf out_def .
    then have second: "invoke st1 a' e' = Some (r', st2)"
      by (simp add: allocate_def r'_def st2_def)
    have r1: "deref st2 r = Some (FieldsValue out)"
      by (simp add: deref_def st2_def st1_def r_def nth_append)
    have r2: "deref st2 r' = Some (FieldsValue out)"
      by (simp add: deref_def st2_def r'_def nth_append)
    have ne: "r \<noteq> r'"
      by (simp add: r_def r'_def st1_def)
    have typed: "out = extractCustomSchemaFields c ex"
      if "hardcodedFields st = HARDCODED_FIELDS"
      using that by (simp add: out_def extractCustomSchemaFields_def split: option.splits)
    have kept2: "deref st2 x = deref st x" if "deref st x \<noteq> None" for x
      using that by (auto simp: deref_def st2_def st1_def nth_append split: if_splits)
    have hf2: "hardcodedFields st2 = hardcodedFields st"
      by (simp add: st2_def st1_def)
    show ?thesis
      using first second ne r1 r2 typed hf2 kept2
      by (intro exI [of _ r] exI [of _ st1] exI [of _ r'] exI [of _ st2]) auto
  qed
  have order: "extractCustomSchemaFields (Some cs) ex =
          List.map_filter (entryResult (HARDCODED_FIELDS @ ex) (defs cs)) (objectEntries declared)
        \<and> objectEntries (extractCustomSchemaFields (Some cs) ex)
            = extractCustomSchemaFields (Some cs) ex
        \<and> map fst (extractCustomSchemaFields (Some cs) ex) =
            filter (\<lambda>k. k \<in> fst ` set (extractCustomSchemaFields (Some cs) ex))
              (map fst (objectEntries declared))"
    if d: "distinct (map fst declared)" and p: "properties cs = Some (objectEntries declared)"
  proof -
    have dist: "distinct (map fst (objectEntries declared))"
      using d by (rule objectEntries_distinct)
    have eq: "extractCustomSchemaFields (Some cs) ex =
          List.map_filter (entryResult (HARDCODED_FIELDS @ ex) (defs cs)) (objectEntries declared)"
      using p dist by (rule extract_eq_map_filter)
    show ?thesis
      using eq objectEntries_map_filter [of "HARDCODED_FIELDS @ ex" "defs cs" declared]
        map_filter_key_order [OF dist, of "HARDCODED_FIELDS @ ex" "defs cs"]
      by (simp only:)
  qed
  show ?thesis using twice order objectEntries_no_index [of declared] by blast
qed

theorem two_invocations_equal_ordered_witness:
  "schemaAt exampleState (Some 0) = Some (Some exampleSchema)
   \<and> schemaAt exampleState (Some 2) = Some (Some exampleSchema)
   \<and> namesAt exampleState (Some 1) = Some [''cfg_scale'']
   \<and> namesAt exampleState (Some 3) = Some [''cfg_scale'']
   \<and> (\<exists>r st1 r' st2.
          invoke exampleState (Some 0) (Some 1) = Some (r, st1)
        \<and> invoke st1 (Some 2) (Some 3) = Some (r', st2)
        \<and> r \<noteq> r' \<and> deref st2 r = deref st2 r'
        \<and> deref st2 r
            = Some (FieldsValue (extractCustomSchemaFields (Some exampleSchema) [''cfg_scale'']))
        \<and> hardcodedFields st2 = HARDCODED_FIELDS
        \<and> deref st2 0 = Some (SchemaValue exampleSchema))
   \<and> distinct (map fst (the (properties exampleSchema)))
   \<and> properties exampleSchema = Some (objectEntries (the (properties exampleSchema)))
   \<and> objectEntries (extractCustomSchemaFields (Some exampleSchema) [''cfg_scale''])
        = extractCustomSchemaFields (Some exampleSchema) [''cfg_scale'']
   \<and> map fst (extractCustomSchemaFields (Some exampleSchema) [''cfg_scale''])
        = [''strength'', ''sampler'']"
proof -
  note T = two_invocations_equal_ordered [where st = exampleState and a = "Some 0"
      and a' = "Some 2" and e = "Some 1" and e' = "Some 3" and c = "Some exampleSchema"
      and cs = exampleSchema and ex = "[''cfg_scale'']"
      and declared = "the (properties exampleSchema)"]
  have h: "schemaAt exampleState (Some 0) = Some (Some exampleSchema)"
      "schemaAt exampleState (Some 2) = Some (Some exampleSchema)"
      "namesAt exampleState (Some 1) = Some [''cfg_scale'']"
      "namesAt exampleState (Some 3) = Some [''cfg_scale'']"
    and h0: "deref exampleState 0 = Some (SchemaValue exampleSchema)"
    and hf: "hardcodedFields exampleState = HARDCODED_FIELDS"
    by (simp_all add: exampleState_def schemaAt_def namesAt_def deref_def)
  have d: "distinct (map fst (the (properties exampleSchema)))"
    by (simp add: exampleSchema_def)
  have "\<forall>k \<in> fst ` set (the (properties exampleSchema)). \<not> isArrayIndex k"
    by (simp add: exampleSchema_def isArrayIndex_def)
  then have p: "properties exampleSchema = Some (objectEntries (the (properties exampleSchema)))"
    using T by (simp add: exampleSchema_def)
  obtain r st1 r' st2 where inv: "invoke exampleState (Some 0) (Some 1) = Some (r, st1)"
      "invoke st1 (Some 2) (Some 3) = Some (r', st2)" "r \<noteq> r'" "deref st2 r = deref st2 r'"
      "deref st2 r = Some (FieldsValue (extractCustomSchemaFields (Some exampleSchema) [''cfg_scale'']))"
      "hardcodedFields st2 = hardcodedFields exampleState"
      "\<forall>x. deref exampleState x \<noteq> None \<longrightarrow> deref st2 x = deref exampleState x"
    using T h hf by blast
  have keep: "deref st2 0 = Some (SchemaValue exampleSchema)"
    using inv(7) h0 by simp
  have order: "objectEntries (extractCustomSchemaFields (Some exampleSchema) [''cfg_scale''])
        = extractCustomSchemaFields (Some exampleSchema) [''cfg_scale'']"
    using T d p by blast
  have keys: "map fst (extractCustomSchemaFields (Some exampleSchema) [''cfg_scale''])
        = [''strength'', ''sampler'']"
    using example_ranges by (simp add: ex_defs)
  show ?thesis
    using h d p inv(1-5) inv(6) hf keep order keys by (simp only:) blast
qed

text \<open>
  C8 as first stated, with the declared order, fails for a name that is an array index: a
  schema that declares \<open>b\<close> before \<open>1\<close> yields an output that enumerates \<open>1\<close> before \<open>b\<close>.
\<close>

theorem index_name_order_counterexample:
  "map fst indexNameDeclared = [''b'', ''1'']
   \<and> map fst (objectEntries indexNameDeclared) = [''1'', ''b'']
   \<and> map fst (objectEntries (extractCustomSchemaFields
        (Some \<lparr>properties = Some (objectEntries indexNameDeclared), defs = None\<rparr>) []))
      = [''1'', ''b'']
   \<and> map fst (objectEntries (extractCustomSchemaFields
        (Some \<lparr>properties = Some (objectEntries indexNameDeclared), defs = None\<rparr>) []))
      \<noteq> map fst indexNameDeclared"
  by (simp add: indexNameDeclared_def objectEntries_def isArrayIndex_def digitsValue_def ex_defs)

section \<open>Carried attributes\<close>

text \<open>
  C9. Every descriptor, from the reference path or from the type classifier, has the
  default and the description of its source property, absent when they are absent there,
  and its name is the property's key; this holds for every entry of the output mapping.
\<close>

theorem default_description_name_carried:
  "(extractFieldMetadata fieldName property ds = Some d \<longrightarrow>
      name d = fieldName \<and> fdefault d = pdefault property
      \<and> fdescription d = pdescription property)
   \<and> (properties cs = Some entries \<and> (k, m) \<in> set (extractCustomSchemaFields (Some cs) excludeFields) \<longrightarrow>
        (\<exists>p. (k, p) \<in> set entries \<and> name m = k \<and> fdefault m = pdefault p
            \<and> fdescription m = pdescription p))"
proof -
  have one: "name d = fieldName \<and> fdefault d = pdefault property \<and> fdescription d = pdescription property"
    if "extractFieldMetadata fieldName property ds = Some d" for fieldName property ds d
    using that by (auto simp: extractFieldMetadata_def split: option.splits)
  have "\<exists>p. (k, p) \<in> set entries \<and> name m = k \<and> fdefault m = pdefault p \<and> fdescription m = pdescription p"
    if ps: "properties cs = Some entries"
      and km: "(k, m) \<in> set (extractCustomSchemaFields (Some cs) excludeFields)"
  proof -
    obtain p where "(k, p) \<in> set entries" "extractFieldMetadata k p (defs cs) = Some m"
      using extract_mem [OF ps km] by blast
    then show ?thesis using one [of k p "defs cs" m] by blast
  qed
  then show ?thesis using one [of fieldName property ds d] by blast
qed

theorem default_description_name_carried_witness:
  "extractFieldMetadata ''sampler''
      (emptyProperty\<lparr>pref := Some ''#/$defs/Sampler'', pdefault := Some (JStr ''euler''),
         pdescription := Some ''Sampling method'', pminimum := Some (round_double 0), pmaximum := Some (round_double 10)\<rparr>)
      (Some exampleDefs)
     = Some \<lparr>name = ''sampler'', ftype = ''enum'', fdefault = Some (JStr ''euler''),
          fdescription = Some ''Sampling method'', fminimum = None, fmaximum = None,
          enumValues = Some [JStr ''euler'', JStr ''dpm++''], step = None\<rparr>
   \<and> (''cfg_scale'', \<lparr>name = ''cfg_scale'', ftype = ''number'', fdefault = Some (JNum (round_double 7.5)),
          fdescription = None, fminimum = Some (round_double 1), fmaximum = Some (round_double 20), enumValues = None,
          step = Some (round_double 0.1)\<rparr>)
       \<in> set (extractCustomSchemaFields (Some exampleSchema) [])
   \<and> (\<exists>p. (''cfg_scale'', p) \<in> set (the (properties exampleSchema))
          \<and> Some (JNum (round_double 7.5)) = pdefault p \<and> None = pdescription p)"
  using example_ranges default_description_name_carried [where fieldName = "''sampler''"
      and property = "emptyProperty\<lparr>pref := Some ''#/$defs/Sampler'',
         pdefault := Some (JStr ''euler''), pdescription := Some ''Sampling method'',
         pminimum := Some (round_double 0), pmaximum := Some (round_double 10)\<rparr>"
      and ds = "Some exampleDefs"
      and d = "\<lparr>name = ''sampler'', ftype = ''enum'', fdefault = Some (JStr ''euler''),
          fdescription = Some ''Sampling method'', fminimum = None, fmaximum = None,
          enumValues = Some [JStr ''euler'', JStr ''dpm++''], step = None\<rparr>"
      and cs = exampleSchema and entries = "the (properties exampleSchema)"
      and excludeFields = "[]" and k = "''cfg_scale''"
      and m = "\<lparr>name = ''cfg_scale'', ftype = ''number'', fdefault = Some (JNum (round_double 7.5)),
          fdescription = None, fminimum = Some (round_double 1), fmaximum = Some (round_double 20), enumValues = None,
          step = Some (round_double 0.1)\<rparr>"]
  by (simp add: ex_defs)

section \<open>Bounds on the reference path\<close>

text \<open>
  C10. A descriptor produced by the reference path (type enum through a resolved
  definition) has no minimum, no maximum and no step, also when the property declares
  bounds; on the type-classifier path the bounds are those of the property.
\<close>

theorem reference_path_no_bounds:
  "(resolveRefEnum property ds = Some vs \<longrightarrow>
      (\<exists>d. extractFieldMetadata fieldName property ds = Some d \<and> ftype d = ''enum''
           \<and> fminimum d = None \<and> fmaximum d = None \<and> step d = None))
   \<and> (resolveRefEnum property ds = None \<and> extractFieldMetadata fieldName property ds = Some m \<longrightarrow>
        fminimum m = pminimum property \<and> fmaximum m = pmaximum property)"
  by (auto simp: extractFieldMetadata_def split: option.splits)

theorem reference_path_no_bounds_witness:
  "resolveRefEnum
      (emptyProperty\<lparr>pref := Some ''#/$defs/Sampler'', pminimum := Some (round_double 0), pmaximum := Some (round_double 10)\<rparr>)
      (Some exampleDefs) = Some [JStr ''euler'', JStr ''dpm++'']
   \<and> extractFieldMetadata ''sampler''
      (emptyProperty\<lparr>pref := Some ''#/$defs/Sampler'', pminimum := Some (round_double 0), pmaximum := Some (round_double 10)\<rparr>)
      (Some exampleDefs)
     = Some \<lparr>name = ''sampler'', ftype = ''enum'', fdefault = None, fdescription = None,
          fminimum = None, fmaximum = None,
          enumValues = Some [JStr ''euler'', JStr ''dpm++''], step = None\<rparr>
   \<and> resolveRefEnum (emptyProperty\<lparr>ptype := Some ''integer'', pminimum := Some (round_double 0), pmaximum := Some (round_double 10)\<rparr>)
        (Some exampleDefs) = None
   \<and> extractFieldMetadata ''steps''
        (emptyProperty\<lparr>ptype := Some ''integer'', pminimum := Some (round_double 0), pmaximum := Some (round_double 10)\<rparr>)
        (Some exampleDefs)
     = Some \<lparr>name = ''steps'', ftype = ''integer'', fdefault = None, fdescription = None,
          fminimum = Some (round_double 0), fmaximum = Some (round_double 10), enumValues = None, step = Some (round_double 1)\<rparr>"
  using
    reference_path_no_bounds [where ds = "Some exampleDefs" and fieldName = "''sampler''"
      and vs = "[JStr ''euler'', JStr ''dpm++'']"
      and property = "emptyProperty\<lparr>pref := Some ''#/$defs/Sampler'', pminimum := Some (round_double 0), pmaximum := Some (round_double 10)\<rparr>"]
    reference_path_no_bounds [where ds = "Some exampleDefs" and fieldName = "''steps''"
      and property = "emptyProperty\<lparr>ptype := Some ''integer'', pminimum := Some (round_double 0), pmaximum := Some (round_double 10)\<rparr>"
      and m = "\<lparr>name = ''steps'', ftype = ''integer'', fdefault = None, fdescription = None,
          fminimum = Some (round_double 0), fmaximum = Some (round_double 10), enumValues = None, step = Some (round_double 1)\<rparr>"]
  by (simp add: ex_defs)

end
